theory Spec2Isabelle
  imports Main "HOL-Library.Char_ord" "HOL-Library.List_Lexorder"
begin

section \<open>PhysicsFS (multi-drive variant): a shallow embedding of \<^verbatim>\<open>physfs.c\<close>\<close>

text \<open>
  The development follows \<^verbatim>\<open>src/src/physfs.c\<close> and \<^verbatim>\<open>src/src/physfs_archiver_dir.c\<close>.
  One drive (one value of the index \<^verbatim>\<open>dv\<close>) and one calling thread are modelled, so the
  per-drive arrays become the fields of one state record and the per-thread error list
  becomes the error state of that thread.

  Conventions.
  \<^item> A C string is a \<^typ>\<open>string\<close>; a pointer that may be \<^verbatim>\<open>NULL\<close> is an \<^typ>\<open>'a option\<close>.
  \<^item> \<^verbatim>\<open>size_t\<close> and \<^verbatim>\<open>PHYSFS_uint64\<close> are 64 bits wide (the Linux platform file of the
    repository); they are natural numbers or integers with the wrap-around written out
    (\<open>u64\<close>, \<open>s64\<close> below).
  \<^item> A function that may set the thread's error code takes the thread's error state as its
    last argument and returns the error state afterwards as the last component of its
    result.
  \<^item> The platform layer (\<^verbatim>\<open>__PHYSFS_platformStat\<close>, the file primitives), the allocator
    and the macros of \<^verbatim>\<open>physfs_internal.h\<close> are not part of the sources at hand; they are
    parameters of the model (record \<open>platform\<close>).
\<close>

subsection \<open>Error codes\<close>

datatype PHYSFS_ErrorCode =
    PHYSFS_ERR_OK
  | PHYSFS_ERR_OTHER_ERROR
  | PHYSFS_ERR_OUT_OF_MEMORY
  | PHYSFS_ERR_NOT_INITIALIZED
  | PHYSFS_ERR_IS_INITIALIZED
  | PHYSFS_ERR_ARGV0_IS_NULL
  | PHYSFS_ERR_UNSUPPORTED
  | PHYSFS_ERR_PAST_EOF
  | PHYSFS_ERR_FILES_STILL_OPEN
  | PHYSFS_ERR_INVALID_ARGUMENT
  | PHYSFS_ERR_NOT_MOUNTED
  | PHYSFS_ERR_NOT_FOUND
  | PHYSFS_ERR_SYMLINK_FORBIDDEN
  | PHYSFS_ERR_NO_WRITE_DIR
  | PHYSFS_ERR_OPEN_FOR_READING
  | PHYSFS_ERR_OPEN_FOR_WRITING
  | PHYSFS_ERR_NOT_A_FILE
  | PHYSFS_ERR_READ_ONLY
  | PHYSFS_ERR_CORRUPT
  | PHYSFS_ERR_SYMLINK_LOOP
  | PHYSFS_ERR_IO
  | PHYSFS_ERR_PERMISSION
  | PHYSFS_ERR_NO_SPACE
  | PHYSFS_ERR_BAD_FILENAME
  | PHYSFS_ERR_BUSY
  | PHYSFS_ERR_DIR_NOT_EMPTY
  | PHYSFS_ERR_OS_ERROR
  | PHYSFS_ERR_DUPLICATE
  | PHYSFS_ERR_BAD_PASSWORD
  | PHYSFS_ERR_APP_CALLBACK

text \<open>
  The error state of the calling thread, as \<^verbatim>\<open>findErrorForCurrentThread\<close> finds it: \<open>None\<close>
  while the list \<^verbatim>\<open>errorStates\<close> has no \<^verbatim>\<open>ErrState\<close> of the thread, else the \<^verbatim>\<open>code\<close> of the
  thread's \<^verbatim>\<open>ErrState\<close>.
\<close>

type_synonym ErrState = "PHYSFS_ErrorCode option"

text \<open>\<^verbatim>\<open>currentErrorCode\<close>: it does not reset the error state.\<close>

definition currentErrorCode :: "ErrState \<Rightarrow> PHYSFS_ErrorCode" where
  "currentErrorCode es = (case es of None \<Rightarrow> PHYSFS_ERR_OK | Some code \<Rightarrow> code)"

text \<open>\<^verbatim>\<open>PHYSFS_getLastErrorCode\<close>: the code, and the error state with the code reset.\<close>

definition PHYSFS_getLastErrorCode :: "ErrState \<Rightarrow> PHYSFS_ErrorCode \<times> ErrState" where
  "PHYSFS_getLastErrorCode es =
     (case es of
        None \<Rightarrow> (PHYSFS_ERR_OK, None)
      | Some code \<Rightarrow> (code, Some PHYSFS_ERR_OK))"

subsection \<open>C strings\<close>

text \<open>
  \<^verbatim>\<open>strcmp\<close>: bytes compare as unsigned values and a proper prefix is smaller. The C
  standard fixes the sign of the result only, so the model returns \<open>-1\<close>, \<open>0\<close> or \<open>1\<close>.
\<close>

fun strcmp :: "string \<Rightarrow> string \<Rightarrow> int" where
  "strcmp [] [] = 0"
| "strcmp [] (y # ys) = - 1"
| "strcmp (x # xs) [] = 1"
| "strcmp (x # xs) (y # ys) =
     (if x = y then strcmp xs ys
      else if (of_char x :: nat) < of_char y then - 1 else 1)"

text \<open>\<^verbatim>\<open>strncmp(a, b, n) == 0\<close>, for strings without an embedded terminator.\<close>

definition strncmp_eq :: "string \<Rightarrow> string \<Rightarrow> nat \<Rightarrow> bool" where
  "strncmp_eq a b n = (take n a = take n b)"

text \<open>\<^verbatim>\<open>strchr(s, '/')\<close>: the offset of the first slash, if there is one.\<close>

fun strchr_slash :: "string \<Rightarrow> nat option" where
  "strchr_slash [] = None"
| "strchr_slash (c # cs) =
     (if c = CHR ''/'' then Some 0
      else (case strchr_slash cs of None \<Rightarrow> None | Some n \<Rightarrow> Some (Suc n)))"

lemma strchr_slash_less: "strchr_slash s = Some k \<Longrightarrow> k < length s"
  by (induction s arbitrary: k) (auto split: if_splits option.splits)

subsection \<open>Path sanitization\<close>

text \<open>
  The \<^verbatim>\<open>do ... while\<close> loop of \<^verbatim>\<open>sanitizePlatformIndependentPath\<close>. The first argument is
  what is left of \<^verbatim>\<open>src\<close>, the second what has been written to \<^verbatim>\<open>dst\<close>, the third
  the text between \<^verbatim>\<open>prev\<close> and \<^verbatim>\<open>dst\<close> (the segment being copied). The empty rest is the
  terminator: it is copied and the loop ends, with no look at the segment.
\<close>

function sanitize_loop :: "string \<Rightarrow> string \<Rightarrow> string \<Rightarrow> string option" where
  "sanitize_loop [] dst seg = Some dst"
| "sanitize_loop (ch # src) dst seg =
     (if ch = CHR '':'' \<or> ch = CHR 0x5C then None
      else if ch = CHR ''/'' then
        (if seg = ''.'' \<or> seg = ''..'' then None
         else
           (let src' = dropWhile (\<lambda>c. c = CHR ''/'') src in
            if src' = [] then Some dst
            else sanitize_loop src' (dst @ [ch]) []))
      else sanitize_loop src (dst @ [ch]) (seg @ [ch]))"
  by pat_completeness auto
termination
  by (relation "measure (\<lambda>(src, dst, seg). length src)")
     (auto intro: le_imp_less_Suc length_dropWhile_le)

text \<open>
  \<^verbatim>\<open>sanitizePlatformIndependentPath\<close>: \<open>None\<close> is the return value 0, with
  \<^verbatim>\<open>PHYSFS_ERR_BAD_FILENAME\<close> set (every failure of the function sets that code).
\<close>

definition sanitizePlatformIndependentPath :: "string \<Rightarrow> string option" where
  "sanitizePlatformIndependentPath src =
     (let src' = dropWhile (\<lambda>c. c = CHR ''/'') src in
      if src' = ''.'' \<or> src' = ''..'' then None
      else sanitize_loop src' [] [])"

text \<open>
  The paths the sanitizer rejects, read off the string. The segments of a path are the
  pieces between its slashes (\<open>split_slash\<close>; two slashes in a row have an empty segment
  between them). A path is rejected when it holds a colon or a backslash, when it is \<^verbatim>\<open>.\<close> or
  \<^verbatim>\<open>..\<close> once its leading slashes are gone, or when a segment that a slash follows (any
  segment but the last) is \<^verbatim>\<open>.\<close> or \<^verbatim>\<open>..\<close>.
\<close>

fun split_slash :: "string \<Rightarrow> string list" where
  "split_slash [] = [[]]"
| "split_slash (c # cs) =
     (if c = CHR ''/'' then [] # split_slash cs
      else (case split_slash cs of
              [] \<Rightarrow> [[c]]
            | seg # segs \<Rightarrow> (c # seg) # segs))"


subsection \<open>Machine integers\<close>

text \<open>
  \<open>u64\<close> is the value of an integer expression stored in a \<^verbatim>\<open>size_t\<close> or a
  \<^verbatim>\<open>PHYSFS_uint64\<close>, \<open>s64\<close> its value stored in a \<^verbatim>\<open>PHYSFS_sint64\<close> (two's complement),
  \<open>u32\<close> in a \<^verbatim>\<open>PHYSFS_uint32\<close>.
\<close>

definition u64 :: "int \<Rightarrow> int" where
  "u64 x = x mod 2 ^ 64"

definition s64 :: "int \<Rightarrow> int" where
  "s64 x = (x + 2 ^ 63) mod 2 ^ 64 - 2 ^ 63"

definition u32 :: "nat \<Rightarrow> nat" where
  "u32 x = x mod 2 ^ 32"

subsection \<open>The platform layer and the allocator\<close>

datatype PHYSFS_FileType =
    PHYSFS_FILETYPE_REGULAR
  | PHYSFS_FILETYPE_DIRECTORY
  | PHYSFS_FILETYPE_SYMLINK
  | PHYSFS_FILETYPE_OTHER

datatype PHYSFS_EnumerateCallbackResult =
    PHYSFS_ENUM_ERROR
  | PHYSFS_ENUM_STOP
  | PHYSFS_ENUM_OK

text \<open>
  What the sources at hand call but do not define. \<open>'o\<close> is the platform's file handle.
  \<^item> \<open>Malloc n\<close>, \<open>Realloc n\<close>: whether the allocator returns a block for a request of
    \<open>n\<close> bytes.
  \<^item> \<open>smallAlloc_onstack n\<close>: whether the macro \<^verbatim>\<open>__PHYSFS_smallAlloc\<close> took the block from
    the stack and hands a non-null pointer to \<^verbatim>\<open>__PHYSFS_initSmallAlloc\<close>.
  \<^item> \<open>platformStat fname follow\<close>: the return value and the file type left in the
    \<^verbatim>\<open>PHYSFS_Stat\<close> buffer (after a failure, whatever the buffer then holds).
  \<^item> \<open>platformEnumerate_entries dir\<close>: the names \<^verbatim>\<open>__PHYSFS_platformEnumerate\<close> hands to
    its callback, or \<open>None\<close> where it fails before the first one.
  \<^item> the file primitives, from which the native \<^verbatim>\<open>PHYSFS_Io\<close> is built.
\<close>

record 'o platform =
  Malloc :: "nat \<Rightarrow> bool"
  Realloc :: "nat \<Rightarrow> bool"
  smallAlloc_onstack :: "nat \<Rightarrow> bool"
  platformDirSeparator :: char
  platformStat :: "string \<Rightarrow> bool \<Rightarrow> ErrState \<Rightarrow> bool \<times> PHYSFS_FileType \<times> ErrState"
  platformEnumerate_entries :: "string \<Rightarrow> ErrState \<Rightarrow> string list option \<times> ErrState"
  platformOpenRead :: "string \<Rightarrow> ErrState \<Rightarrow> 'o option \<times> ErrState"
  platformOpenWrite :: "string \<Rightarrow> ErrState \<Rightarrow> 'o option \<times> ErrState"
  platformOpenAppend :: "string \<Rightarrow> ErrState \<Rightarrow> 'o option \<times> ErrState"
  platformRead :: "'o \<Rightarrow> nat \<Rightarrow> ErrState \<Rightarrow> int \<times> char list \<times> 'o \<times> ErrState"
  platformWrite :: "'o \<Rightarrow> char list \<Rightarrow> ErrState \<Rightarrow> int \<times> 'o \<times> ErrState"
  platformSeek :: "'o \<Rightarrow> nat \<Rightarrow> ErrState \<Rightarrow> bool \<times> 'o \<times> ErrState"
  platformTell :: "'o \<Rightarrow> int"
  platformFlush :: "'o \<Rightarrow> ErrState \<Rightarrow> bool \<times> 'o \<times> ErrState"

text \<open>Sizes of the structures on a platform with 64-bit pointers.\<close>

definition sizeof_ptr :: nat where "sizeof_ptr = 8"
definition sizeof_DirHandle :: nat where "sizeof_DirHandle = 40"
definition sizeof_FileHandle :: nat where "sizeof_FileHandle = 64"
definition sizeof_PHYSFS_Io :: nat where "sizeof_PHYSFS_Io = 80"
definition sizeof_NativeIoInfo :: nat where "sizeof_NativeIoInfo = 24"

text \<open>
  \<^verbatim>\<open>__PHYSFS_initSmallAlloc\<close> behind the macro \<^verbatim>\<open>__PHYSFS_smallAlloc\<close>: a null \<^verbatim>\<open>ptr\<close> means
  the heap is used, for \<^verbatim>\<open>len + sizeof (void *)\<close> bytes. The result says whether the
  pointer returned is non-null.
\<close>

definition PHYSFS_initSmallAlloc :: "'o platform \<Rightarrow> bool \<Rightarrow> nat \<Rightarrow> bool" where
  "PHYSFS_initSmallAlloc plat ptr_nonnull len =
     (if \<not> ptr_nonnull then Malloc plat (len + sizeof_ptr) else True)"

definition PHYSFS_smallAlloc :: "'o platform \<Rightarrow> nat \<Rightarrow> bool" where
  "PHYSFS_smallAlloc plat len = PHYSFS_initSmallAlloc plat (smallAlloc_onstack plat len) len"

text \<open>
  \<^verbatim>\<open>PHYSFS_setErrorCode\<close>: the last argument is the calling thread's error state, the result
  is the error state afterwards. A thread without an \<^verbatim>\<open>ErrState\<close> gets one from the
  allocator; where that fails nothing is recorded.
\<close>

definition sizeof_ErrState :: nat where "sizeof_ErrState = 24"

definition PHYSFS_setErrorCode :: "'o platform \<Rightarrow> PHYSFS_ErrorCode \<Rightarrow> ErrState \<Rightarrow> ErrState" where
  "PHYSFS_setErrorCode plat errcode es =
     (if errcode = PHYSFS_ERR_OK then es
      else
        (case es of
           None \<Rightarrow> (if \<not> Malloc plat sizeof_ErrState then None else Some errcode)
         | Some code \<Rightarrow> Some errcode))"

subsection \<open>The \<^verbatim>\<open>PHYSFS_Io\<close> interface and file handles\<close>

text \<open>
  A \<^verbatim>\<open>PHYSFS_Io\<close> is a table of functions and the opaque state they work on. Each function
  of the model takes the opaque state and the thread's error state, and returns what the C
  function returns, the new opaque state and the error state afterwards.
  \<^item> \<open>io_read opq len\<close>: the return value, the bytes stored at the start of the
    caller's buffer, the new state.
  \<^item> \<open>io_write opq bytes\<close>: the return value (bytes accepted, or a value \<open>\<le> 0\<close>).
  \<^item> \<open>io_seek opq offset\<close>: nonzero on success.
  \<^item> \<open>io_tell opq\<close>: the position, or \<open>-1\<close>.
  \<^item> \<open>io_flush\<close> may be a null pointer.
  Return values of type \<^verbatim>\<open>PHYSFS_sint64\<close> are read through \<open>s64\<close> where they are used.
\<close>

record 'o PHYSFS_Io =
  io_opaque :: 'o
  io_read :: "'o \<Rightarrow> nat \<Rightarrow> ErrState \<Rightarrow> int \<times> char list \<times> 'o \<times> ErrState"
  io_write :: "'o \<Rightarrow> char list \<Rightarrow> ErrState \<Rightarrow> int \<times> 'o \<times> ErrState"
  io_seek :: "'o \<Rightarrow> nat \<Rightarrow> ErrState \<Rightarrow> bool \<times> 'o \<times> ErrState"
  io_tell :: "'o \<Rightarrow> int"
  io_flush :: "('o \<Rightarrow> ErrState \<Rightarrow> bool \<times> 'o \<times> ErrState) option"

text \<open>
  \<^verbatim>\<open>FileHandle\<close>. \<open>fh_ptr\<close> is the address of the structure (what \<^verbatim>\<open>PHYSFS_File *\<close> values
  compare), \<open>dirHandle\<close> the address of the \<^verbatim>\<open>DirHandle\<close> that created it. \<open>buffer\<close> is
  \<open>None\<close> for a null pointer and holds \<open>bufsize\<close> bytes otherwise.
\<close>

record 'o FileHandle =
  fh_ptr :: nat
  io :: "'o PHYSFS_Io"
  forReading :: bool
  dirHandle :: nat
  buffer :: "char list option"
  bufsize :: nat
  buffill :: nat
  bufpos :: nat

text \<open>Storing \<open>bytes\<close> at offset \<open>off\<close> of a buffer (\<^verbatim>\<open>memcpy\<close> into it).\<close>

definition store_bytes :: "char list \<Rightarrow> nat \<Rightarrow> char list \<Rightarrow> char list" where
  "store_bytes buf off bytes = take off buf @ bytes @ drop (off + length bytes) buf"

text \<open>The \<open>n\<close> bytes at offset \<open>off\<close> of the handle's buffer.\<close>

definition buffer_bytes :: "'o FileHandle \<Rightarrow> nat \<Rightarrow> nat \<Rightarrow> char list" where
  "buffer_bytes fh off n = take n (drop off (case buffer fh of None \<Rightarrow> [] | Some b \<Rightarrow> b))"

text \<open>\<^verbatim>\<open>PHYSFS_tell\<close>.\<close>

definition PHYSFS_tell :: "'o FileHandle \<Rightarrow> int" where
  "PHYSFS_tell fh =
     (let pos = s64 (io_tell (io fh) (io_opaque (io fh))) in
      if forReading fh then s64 ((pos - int (buffill fh)) + int (bufpos fh))
      else s64 (pos + int (buffill fh)))"

text \<open>
  \<^verbatim>\<open>PHYSFS_flush\<close>: the return value, the handle afterwards and the error state.
  \<^verbatim>\<open>BAIL_IF_ERRPASS(rc <= 0, 0)\<close> is its only failure.
\<close>

definition PHYSFS_flush ::
    "'o FileHandle \<Rightarrow> ErrState \<Rightarrow> bool \<times> 'o FileHandle \<times> ErrState" where
  "PHYSFS_flush fh err =
     (if forReading fh \<or> bufpos fh = buffill fh then (True, fh, err)
      else
        (case io_write (io fh) (io_opaque (io fh))
                (buffer_bytes fh (bufpos fh) (nat (u64 (int (buffill fh) - int (bufpos fh)))))
                err of
           (rc0, opq, err1) \<Rightarrow>
             (let fh1 = fh\<lparr>io := (io fh)\<lparr>io_opaque := opq\<rparr>\<rparr>
              in if s64 rc0 \<le> 0 then (False, fh1, err1)
                 else (True, fh1\<lparr>bufpos := 0, buffill := 0\<rparr>, err1))))"

text \<open>
  \<^verbatim>\<open>doBufferedRead\<close>. The arguments after the handle are the bytes delivered so far, the
  remaining \<^verbatim>\<open>len\<close>, and \<^verbatim>\<open>retval\<close>; the result is \<^verbatim>\<open>retval\<close>, the bytes delivered, the
  handle and the error state. A refill that returns a positive count leaves a non-empty
  buffer, so the next round copies: the loop ends.
\<close>

definition avail :: "'o FileHandle \<Rightarrow> nat" where
  "avail fh = nat (u64 (int (buffill fh) - int (bufpos fh)))"

function doBufferedRead_loop ::
    "'o FileHandle \<Rightarrow> char list \<Rightarrow> nat \<Rightarrow> int \<Rightarrow> ErrState
       \<Rightarrow> int \<times> char list \<times> 'o FileHandle \<times> ErrState" where
  "doBufferedRead_loop fh out len retval err =
     (if len > 0 then
        (if avail fh > 0 then
           (let cpy = (if len < avail fh then len else avail fh)
            in doBufferedRead_loop (fh\<lparr>bufpos := nat (u64 (int (bufpos fh) + int cpy))\<rparr>)
                 (out @ buffer_bytes fh (bufpos fh) cpy) (len - cpy) (s64 (retval + int cpy)) err)
         else
           (case io_read (io fh) (io_opaque (io fh)) (bufsize fh) err of
              (rc0, bytes, opq, err1) \<Rightarrow>
                (let rc = s64 rc0;
                     fh1 = fh\<lparr>io := (io fh)\<lparr>io_opaque := opq\<rparr>,
                               buffer := map_option (\<lambda>b. store_bytes b 0 bytes) (buffer fh),
                               bufpos := 0\<rparr>
                 in if rc > 0 then
                      doBufferedRead_loop (fh1\<lparr>buffill := nat (u64 rc)\<rparr>) out len retval err1
                    else (if retval = 0 then rc else retval, out, fh1\<lparr>buffill := 0\<rparr>, err1))))
      else (retval, out, fh, err))"
  by pat_completeness auto
termination
proof (relation "measure (\<lambda>(fh, out, len, retval, err).
        2 * len + (if avail fh > 0 then 0 else 1))", goal_cases)
  case 1
  show ?case by simp
next
  case (2 fh out len retval err)
  then show ?case by (auto simp: avail_def split: if_splits)
next
  case 3
  have pos: "u64 (s64 r) = s64 r" if "0 < s64 r" for r :: int
  proof -
    have "s64 r < 2 ^ 63" by (simp add: s64_def)
    with that show ?thesis by (simp add: u64_def)
  qed
  from 3 show ?case by (auto simp: avail_def pos)
qed

declare doBufferedRead_loop.simps [simp del]

definition doBufferedRead ::
    "'o FileHandle \<Rightarrow> nat \<Rightarrow> ErrState
       \<Rightarrow> int \<times> char list \<times> 'o FileHandle \<times> ErrState" where
  "doBufferedRead fh len err = doBufferedRead_loop fh [] len 0 err"

text \<open>
  \<^verbatim>\<open>PHYSFS_readBytes\<close>. \<^verbatim>\<open>__PHYSFS_ui64FitsAddressSpace\<close> holds of every 64-bit length where
  \<^verbatim>\<open>size_t\<close> has 64 bits, so only the \<^verbatim>\<open>maxlen\<close> test is left. The result is the return
  value, the bytes stored in the caller's buffer, the handle and the error state.
\<close>

definition maxlen :: nat where
  "maxlen = 0x7FFFFFFFFFFFFFFF"

definition PHYSFS_readBytes ::
    "'p platform \<Rightarrow> 'o FileHandle \<Rightarrow> nat \<Rightarrow> ErrState
       \<Rightarrow> int \<times> char list \<times> 'o FileHandle \<times> ErrState" where
  "PHYSFS_readBytes plat fh len err =
     (if len > maxlen then
        (-1, [], fh, PHYSFS_setErrorCode plat PHYSFS_ERR_INVALID_ARGUMENT err)
      else if \<not> forReading fh then
        (-1, [], fh, PHYSFS_setErrorCode plat PHYSFS_ERR_OPEN_FOR_WRITING err)
      else if len = 0 then (0, [], fh, err)
      else if buffer fh \<noteq> None then doBufferedRead fh len err
      else
        (case io_read (io fh) (io_opaque (io fh)) len err of
           (rc0, bytes, opq, err1) \<Rightarrow>
             (s64 rc0, bytes, fh\<lparr>io := (io fh)\<lparr>io_opaque := opq\<rparr>\<rparr>, err1)))"

text \<open>\<^verbatim>\<open>PHYSFS_read\<close>: \<open>size\<close> and \<open>count\<close> are 32-bit values, their product fits 64 bits.\<close>

definition PHYSFS_read ::
    "'p platform \<Rightarrow> 'o FileHandle \<Rightarrow> nat \<Rightarrow> nat \<Rightarrow> ErrState
       \<Rightarrow> int \<times> char list \<times> 'o FileHandle \<times> ErrState" where
  "PHYSFS_read plat fh size' count' err =
     (case PHYSFS_readBytes plat fh (u32 size' * u32 count') err of
        (retval, bytes, fh1, err1) \<Rightarrow>
          (if retval \<le> 0 then retval else retval div int (u32 size'), bytes, fh1, err1))"

text \<open>
  \<^verbatim>\<open>doBufferedWrite\<close> and \<^verbatim>\<open>PHYSFS_writeBytes\<close>: \<open>data\<close> are the \<^verbatim>\<open>len\<close> bytes at the caller's
  \<^verbatim>\<open>buffer\<close>.
\<close>

definition doBufferedWrite ::
    "'o FileHandle \<Rightarrow> char list \<Rightarrow> ErrState \<Rightarrow> int \<times> 'o FileHandle \<times> ErrState" where
  "doBufferedWrite fh data err =
     (let len = length data in
      if u64 (int (buffill fh) + int len) < int (bufsize fh) then
        (s64 (int len),
         fh\<lparr>buffer := map_option (\<lambda>b. store_bytes b (buffill fh) data) (buffer fh),
            buffill := nat (u64 (int (buffill fh) + int len))\<rparr>,
         err)
      else
        (case PHYSFS_flush fh err of
           (False, fh1, err1) \<Rightarrow> (-1, fh1, err1)
         | (True, fh1, err1) \<Rightarrow>
             (case io_write (io fh1) (io_opaque (io fh1)) data err1 of
                (rc0, opq, err2) \<Rightarrow>
                  (s64 rc0, fh1\<lparr>io := (io fh1)\<lparr>io_opaque := opq\<rparr>\<rparr>, err2))))"

definition PHYSFS_writeBytes ::
    "'p platform \<Rightarrow> 'o FileHandle \<Rightarrow> char list \<Rightarrow> ErrState
       \<Rightarrow> int \<times> 'o FileHandle \<times> ErrState" where
  "PHYSFS_writeBytes plat fh data err =
     (if length data > maxlen then
        (-1, fh, PHYSFS_setErrorCode plat PHYSFS_ERR_INVALID_ARGUMENT err)
      else if forReading fh then
        (-1, fh, PHYSFS_setErrorCode plat PHYSFS_ERR_OPEN_FOR_READING err)
      else if length data = 0 then (0, fh, err)
      else if buffer fh \<noteq> None then doBufferedWrite fh data err
      else
        (case io_write (io fh) (io_opaque (io fh)) data err of
           (rc0, opq, err1) \<Rightarrow>
             (s64 rc0, fh\<lparr>io := (io fh)\<lparr>io_opaque := opq\<rparr>\<rparr>, err1)))"

text \<open>\<^verbatim>\<open>PHYSFS_write\<close>, the counterpart of \<^verbatim>\<open>PHYSFS_read\<close>: \<open>data\<close> are the
  \<open>size * count\<close> bytes at the caller's buffer.\<close>

definition PHYSFS_write ::
    "'p platform \<Rightarrow> 'o FileHandle \<Rightarrow> char list \<Rightarrow> nat \<Rightarrow> nat \<Rightarrow> ErrState
       \<Rightarrow> int \<times> 'o FileHandle \<times> ErrState" where
  "PHYSFS_write plat fh data size' count' err =
     (case PHYSFS_writeBytes plat fh (take (u32 size' * u32 count') data) err of
        (retval, fh1, err1) \<Rightarrow>
          (if retval \<le> 0 then retval else retval div int (u32 size'), fh1, err1))"

text \<open>
  \<^verbatim>\<open>PHYSFS_seek\<close>. \<open>pos\<close> is a \<^verbatim>\<open>PHYSFS_uint64\<close>; \<open>offset\<close> is the difference to
  \<^verbatim>\<open>PHYSFS_tell\<close>, computed in 64 bits and read as a signed value.
\<close>

definition PHYSFS_seek ::
    "'o FileHandle \<Rightarrow> nat \<Rightarrow> ErrState \<Rightarrow> bool \<times> 'o FileHandle \<times> ErrState" where
  "PHYSFS_seek fh0 pos err0 =
     (case PHYSFS_flush fh0 err0 of
        (False, fh, err) \<Rightarrow> (False, fh, err)
      | (True, fh, err) \<Rightarrow>
          (let offset = s64 (int pos - PHYSFS_tell fh) in
           if buffer fh \<noteq> None \<and> forReading fh \<and>
              ((offset \<ge> 0 \<and> u64 offset \<le> u64 (int (buffill fh) - int (bufpos fh))) \<or>
               (offset < 0 \<and> u64 (- offset) \<le> int (bufpos fh)))
           then (True, fh\<lparr>bufpos := nat (u64 (s64 (int (bufpos fh)) + offset))\<rparr>, err)
           else
             (case io_seek (io fh) (io_opaque (io fh)) pos err of
                (ok, opq, err1) \<Rightarrow>
                  (ok, fh\<lparr>buffill := 0, bufpos := 0, io := (io fh)\<lparr>io_opaque := opq\<rparr>\<rparr>,
                   err1))))"

text \<open>
  The invariants of a handle's buffer that the data model states (\<open>bufpos\<close> and
  \<open>buffill\<close> within the buffer), together with what is asked of its stream: \<^verbatim>\<open>tell\<close>
  returns \<open>-1\<close> or a position that, with the buffer size added, fits a signed 64-bit
  value, and \<^verbatim>\<open>read\<close> never returns more than the length it was asked for.
\<close>

definition handle_ok :: "'o FileHandle \<Rightarrow> bool" where
  "handle_ok fh \<longleftrightarrow>
     bufpos fh \<le> buffill fh \<and> buffill fh \<le> bufsize fh \<and> bufsize fh < 2 ^ 63 \<and>
     (\<forall>opq. - 1 \<le> io_tell (io fh) opq \<and> io_tell (io fh) opq + int (bufsize fh) < 2 ^ 63) \<and>
     (\<forall>opq len e. s64 (fst (io_read (io fh) opq len e)) \<le> int len)"

text \<open>The logical position in the words of the specification, as an integer.\<close>

definition tell_formula :: "'o FileHandle \<Rightarrow> int" where
  "tell_formula fh =
     (if forReading fh
      then io_tell (io fh) (io_opaque (io fh)) - int (buffill fh) + int (bufpos fh)
      else io_tell (io fh) (io_opaque (io fh)) + int (buffill fh))"

subsection \<open>Archivers and directory handles\<close>

text \<open>
  \<^verbatim>\<open>PHYSFS_Archiver\<close>: the entries of the table that the functions modelled here call.
  \<^item> \<open>openArchive io name forWriting\<close>: the opaque pointer, whether \<^verbatim>\<open>*claimed\<close> was set,
    the error state.
  \<^item> \<open>enumerate_entries opaque dir\<close>: the names the archiver's \<^verbatim>\<open>enumerate\<close> hands to the
    callback it is given, or \<open>None\<close> where it fails before the first one; the calling
    protocol is \<open>archiver_enumerate\<close> below.
  \<^item> \<open>stat opaque name\<close>: the return value and the file type left in the buffer.
\<close>

record ('a, 'o) PHYSFS_Archiver =
  supportsSymlinks :: bool
  openArchive :: "'o PHYSFS_Io option \<Rightarrow> string \<Rightarrow> bool \<Rightarrow> ErrState
                    \<Rightarrow> 'a option \<times> bool \<times> ErrState"
  enumerate_entries :: "'a \<Rightarrow> string \<Rightarrow> ErrState \<Rightarrow> string list option \<times> ErrState"
  openRead :: "'a \<Rightarrow> string \<Rightarrow> ErrState \<Rightarrow> 'o PHYSFS_Io option \<times> ErrState"
  stat :: "'a \<Rightarrow> string \<Rightarrow> ErrState \<Rightarrow> bool \<times> PHYSFS_FileType \<times> ErrState"

text \<open>
  \<^verbatim>\<open>DirHandle\<close>. \<open>dh_ptr\<close> is the address of the structure; the linked list through
  \<^verbatim>\<open>next\<close> is a list of handles.
\<close>

record ('a, 'o) DirHandle =
  dh_ptr :: nat
  opaque :: 'a
  dirName :: "string option"
  mountPoint :: "string option"
  funcs :: "('a, 'o) PHYSFS_Archiver"

text \<open>
  The state of one drive, for the calling thread. \<open>errcode\<close> is the thread's error state
  (its \<^verbatim>\<open>ErrState\<close>, if it has one); \<open>closedArchives\<close> records the opaque pointers handed to
  \<^verbatim>\<open>closeArchive\<close>, oldest first; \<open>next_ptr\<close> is an address no live structure has (the
  allocator never returns the address of a live block).
\<close>

record ('a, 'o) physfs_state =
  errcode :: ErrState
  searchPath :: "('a, 'o) DirHandle list"
  writeDir :: "('a, 'o) DirHandle option"
  openWriteList :: "'o FileHandle list"
  openReadList :: "'o FileHandle list"
  allowSymLinks :: bool
  closedArchives :: "'a list"
  next_ptr :: nat

subsection \<open>The native \<^verbatim>\<open>PHYSFS_Io\<close> and the \<^verbatim>\<open>DIR\<close> archiver\<close>

definition nativeIoInterface :: "'o platform \<Rightarrow> 'o \<Rightarrow> 'o PHYSFS_Io" where
  "nativeIoInterface plat handle =
     \<lparr>io_opaque = handle,
      io_read = platformRead plat,
      io_write = platformWrite plat,
      io_seek = platformSeek plat,
      io_tell = platformTell plat,
      io_flush = Some (platformFlush plat)\<rparr>"

text \<open>\<^verbatim>\<open>__PHYSFS_createNativeIo\<close>; \<open>mode\<close> is one of the characters \<^verbatim>\<open>r\<close>, \<^verbatim>\<open>w\<close>, \<^verbatim>\<open>a\<close>.\<close>

definition PHYSFS_createNativeIo ::
    "'o platform \<Rightarrow> string \<Rightarrow> char \<Rightarrow> ErrState \<Rightarrow> 'o PHYSFS_Io option \<times> ErrState" where
  "PHYSFS_createNativeIo plat path mode err =
     (if \<not> Malloc plat sizeof_PHYSFS_Io then
        (None, PHYSFS_setErrorCode plat PHYSFS_ERR_OUT_OF_MEMORY err)
      else if \<not> Malloc plat sizeof_NativeIoInfo then
        (None, PHYSFS_setErrorCode plat PHYSFS_ERR_OUT_OF_MEMORY err)
      else if \<not> Malloc plat (length path + 1) then
        (None, PHYSFS_setErrorCode plat PHYSFS_ERR_OUT_OF_MEMORY err)
      else
        (case (if mode = CHR ''r'' then platformOpenRead plat path err
               else if mode = CHR ''w'' then platformOpenWrite plat path err
               else if mode = CHR ''a'' then platformOpenAppend plat path err
               else (None, err)) of
           (None, err1) \<Rightarrow> (None, err1)
         | (Some handle, err1) \<Rightarrow> (Some (nativeIoInterface plat handle), err1)))"

text \<open>
  \<^verbatim>\<open>DIR_openArchive\<close>. The opaque pointer of the archiver is the directory name with the
  separator at its end.
\<close>

definition DIR_openArchive ::
    "'o platform \<Rightarrow> 'o PHYSFS_Io option \<Rightarrow> string \<Rightarrow> bool \<Rightarrow> ErrState
       \<Rightarrow> string option \<times> bool \<times> ErrState" where
  "DIR_openArchive plat io' name forWriting err =
     (case platformStat plat name True err of
        (False, ft, err1) \<Rightarrow> (None, False, err1)
      | (True, ft, err1) \<Rightarrow>
          (if ft \<noteq> PHYSFS_FILETYPE_DIRECTORY then
             (None, False, PHYSFS_setErrorCode plat PHYSFS_ERR_UNSUPPORTED err1)
           else if \<not> Malloc plat (length name + 1 + 1) then
             (None, True, PHYSFS_setErrorCode plat PHYSFS_ERR_OUT_OF_MEMORY err1)
           else if name \<noteq> [] \<and> last name = platformDirSeparator plat then
             (Some name, True, err1)
           else (Some (name @ [platformDirSeparator plat]), True, err1)))"

text \<open>
  \<^verbatim>\<open>CVT_TO_DEPENDENT\<close> with the standard separator: the opaque directory name followed by
  the path, in a block from \<^verbatim>\<open>__PHYSFS_smallAlloc\<close>.
\<close>

definition cvtToDependent ::
    "'o platform \<Rightarrow> string \<Rightarrow> string \<Rightarrow> ErrState \<Rightarrow> string option \<times> ErrState" where
  "cvtToDependent plat prepend path err =
     (if \<not> PHYSFS_smallAlloc plat (length prepend + length path + 1) then
        (None, PHYSFS_setErrorCode plat PHYSFS_ERR_OUT_OF_MEMORY err)
      else (Some (prepend @ path), err))"

definition DIR_stat ::
    "'o platform \<Rightarrow> string \<Rightarrow> string \<Rightarrow> ErrState \<Rightarrow> bool \<times> PHYSFS_FileType \<times> ErrState" where
  "DIR_stat plat opq name err =
     (case cvtToDependent plat opq name err of
        (None, err1) \<Rightarrow> (False, PHYSFS_FILETYPE_OTHER, err1)
      | (Some d, err1) \<Rightarrow> platformStat plat d False err1)"

definition DIR_enumerate_entries ::
    "'o platform \<Rightarrow> string \<Rightarrow> string \<Rightarrow> ErrState \<Rightarrow> string list option \<times> ErrState" where
  "DIR_enumerate_entries plat opq dname err =
     (case cvtToDependent plat opq dname err of
        (None, err1) \<Rightarrow> (None, err1)
      | (Some d, err1) \<Rightarrow> platformEnumerate_entries plat d err1)"

text \<open>
  \<^verbatim>\<open>doOpen\<close> of the \<^verbatim>\<open>DIR\<close> archiver: on failure the error code is read and reset
  (\<^verbatim>\<open>PHYSFS_getLastErrorCode\<close>), the file is stat'ed, and the code is set again.
\<close>

definition DIR_doOpen ::
    "'o platform \<Rightarrow> string \<Rightarrow> string \<Rightarrow> char \<Rightarrow> ErrState
       \<Rightarrow> 'o PHYSFS_Io option \<times> ErrState" where
  "DIR_doOpen plat opq name mode err =
     (case cvtToDependent plat opq name err of
        (None, err1) \<Rightarrow> (None, err1)
      | (Some f, err1) \<Rightarrow>
          (case PHYSFS_createNativeIo plat f mode err1 of
             (Some io', err2) \<Rightarrow> (Some io', err2)
           | (None, err2) \<Rightarrow>
               (case PHYSFS_getLastErrorCode err2 of
                  (err, err3) \<Rightarrow>
                    (case platformStat plat f False err3 of
                       (rc, ft, err4) \<Rightarrow> (None, PHYSFS_setErrorCode plat err err4)))))"

definition DIR_openRead ::
    "'o platform \<Rightarrow> string \<Rightarrow> string \<Rightarrow> ErrState \<Rightarrow> 'o PHYSFS_Io option \<times> ErrState" where
  "DIR_openRead plat opq filename err = DIR_doOpen plat opq filename (CHR ''r'') err"

definition PHYSFS_Archiver_DIR :: "'o platform \<Rightarrow> (string, 'o) PHYSFS_Archiver" where
  "PHYSFS_Archiver_DIR plat =
     \<lparr>supportsSymlinks = True,
      openArchive = DIR_openArchive plat,
      enumerate_entries = DIR_enumerate_entries plat,
      openRead = DIR_openRead plat,
      stat = DIR_stat plat\<rparr>"

subsection \<open>Opening and freeing directory handles\<close>

text \<open>
  \<^verbatim>\<open>tryOpenDir\<close>: the handle, whether the archiver set \<^verbatim>\<open>*claimed\<close>, the \<^verbatim>\<open>PHYSFS_Io\<close> after
  the rewind, and the state. A handle is returned with \<^verbatim>\<open>dirName\<close> still null.
\<close>

definition tryOpenDir ::
    "'o platform \<Rightarrow> 'o PHYSFS_Io option \<Rightarrow> ('a, 'o) PHYSFS_Archiver \<Rightarrow> string \<Rightarrow> bool
       \<Rightarrow> ('a, 'o) physfs_state
       \<Rightarrow> ('a, 'o) DirHandle option \<times> bool \<times> 'o PHYSFS_Io option \<times> ('a, 'o) physfs_state" where
  "tryOpenDir plat io0 fns d forWriting st =
     (case (case io0 of
              None \<Rightarrow> (True, None, errcode st)
            | Some i \<Rightarrow>
                (case io_seek i (io_opaque i) 0 (errcode st) of
                   (ok, opq, e) \<Rightarrow> (ok, Some (i\<lparr>io_opaque := opq\<rparr>), e))) of
        (False, io1, err1) \<Rightarrow> (None, False, io1, st\<lparr>errcode := err1\<rparr>)
      | (True, io1, err1) \<Rightarrow>
          (case openArchive fns io1 d forWriting err1 of
             (None, claimed, err2) \<Rightarrow> (None, claimed, io1, st\<lparr>errcode := err2\<rparr>)
           | (Some opq, claimed, err2) \<Rightarrow>
               (if \<not> Malloc plat sizeof_DirHandle then
                  (None, claimed, io1,
                   st\<lparr>errcode := err2, closedArchives := closedArchives st @ [opq]\<rparr>)
                else
                  (Some \<lparr>dh_ptr = next_ptr st, opaque = opq, dirName = None,
                         mountPoint = None, funcs = fns\<rparr>,
                   claimed, io1,
                   st\<lparr>errcode := err2, next_ptr := Suc (next_ptr st)\<rparr>))))"

text \<open>
  \<^verbatim>\<open>openDirectory\<close>. After the \<^verbatim>\<open>DIR\<close> attempt nothing assigns \<^verbatim>\<open>retval\<close>: the function opens
  the native \<^verbatim>\<open>PHYSFS_Io\<close>, destroys it again and fails. No table of further archivers
  exists in the file, and no loop over one.
\<close>

definition openDirectory_fail ::
    "'o platform \<Rightarrow> bool \<Rightarrow> ('a, 'o) physfs_state
       \<Rightarrow> ('a, 'o) DirHandle option \<times> ('a, 'o) physfs_state" where
  "openDirectory_fail plat claimed st =
     (let errcode' = currentErrorCode (errcode st) in
      (None, st\<lparr>errcode := PHYSFS_setErrorCode plat
                    (if claimed then errcode' else PHYSFS_ERR_UNSUPPORTED) (errcode st)\<rparr>))"

definition openDirectory_native ::
    "'o platform \<Rightarrow> string \<Rightarrow> bool \<Rightarrow> bool \<Rightarrow> (string, 'o) physfs_state
       \<Rightarrow> (string, 'o) DirHandle option \<times> (string, 'o) physfs_state" where
  "openDirectory_native plat d forWriting claimed st =
     (case PHYSFS_createNativeIo plat d (if forWriting then CHR ''w'' else CHR ''r'') (errcode st) of
        (None, err1) \<Rightarrow> (None, st\<lparr>errcode := err1\<rparr>)
      | (Some created_io, err1) \<Rightarrow> openDirectory_fail plat claimed (st\<lparr>errcode := err1\<rparr>))"

definition openDirectory ::
    "'o platform \<Rightarrow> 'o PHYSFS_Io option \<Rightarrow> string \<Rightarrow> bool \<Rightarrow> (string, 'o) physfs_state
       \<Rightarrow> (string, 'o) DirHandle option \<times> (string, 'o) physfs_state" where
  "openDirectory plat io0 d forWriting st =
     (case io0 of
        Some i \<Rightarrow> openDirectory_fail plat False st
      | None \<Rightarrow>
          (case platformStat plat d True (errcode st) of
             (False, ft, err1) \<Rightarrow> (None, st\<lparr>errcode := err1\<rparr>)
           | (True, ft, err1) \<Rightarrow>
               (if ft = PHYSFS_FILETYPE_DIRECTORY then
                  (case tryOpenDir plat None (PHYSFS_Archiver_DIR plat) d forWriting
                          (st\<lparr>errcode := err1\<rparr>) of
                     (retval, claimed, io1, st1) \<Rightarrow>
                       (if retval \<noteq> None \<or> claimed then (retval, st1)
                        else openDirectory_native plat d forWriting claimed st1))
                else openDirectory_native plat d forWriting False (st\<lparr>errcode := err1\<rparr>))))"

text \<open>\<^verbatim>\<open>createDirHandle\<close>. \<open>badDirHandle\<close> is the code at the label of that name.\<close>

definition badDirHandle ::
    "('a, 'o) DirHandle option \<Rightarrow> ('a, 'o) physfs_state
       \<Rightarrow> ('a, 'o) DirHandle option \<times> ('a, 'o) physfs_state" where
  "badDirHandle dh st =
     (case dh of
        None \<Rightarrow> (None, st)
      | Some h \<Rightarrow> (None, st\<lparr>closedArchives := closedArchives st @ [opaque h]\<rparr>))"

definition createDirHandle ::
    "'o platform \<Rightarrow> 'o PHYSFS_Io option \<Rightarrow> string \<Rightarrow> string option \<Rightarrow> bool
       \<Rightarrow> (string, 'o) physfs_state
       \<Rightarrow> (string, 'o) DirHandle option \<times> (string, 'o) physfs_state" where
  "createDirHandle plat io0 newDir mountPoint0 forWriting st =
     (case (case mountPoint0 of
              None \<Rightarrow> Inr None
            | Some mp \<Rightarrow>
                (if \<not> PHYSFS_smallAlloc plat (length mp + 1) then Inl PHYSFS_ERR_OUT_OF_MEMORY
                 else (case sanitizePlatformIndependentPath mp of
                         None \<Rightarrow> Inl PHYSFS_ERR_BAD_FILENAME
                       | Some tmpmntpnt \<Rightarrow> Inr (Some tmpmntpnt)))) of
        Inl e \<Rightarrow> badDirHandle None (st\<lparr>errcode := PHYSFS_setErrorCode plat e (errcode st)\<rparr>)
      | Inr mntpnt \<Rightarrow>
          (case openDirectory plat io0 newDir forWriting st of
             (None, st1) \<Rightarrow> badDirHandle None st1
           | (Some dh, st1) \<Rightarrow>
               (if \<not> Malloc plat (length newDir + 1) then
                  badDirHandle (Some dh)
                    (st1\<lparr>errcode := PHYSFS_setErrorCode plat PHYSFS_ERR_OUT_OF_MEMORY (errcode st1)\<rparr>)
                else
                  (let dh1 = dh\<lparr>dirName := Some newDir\<rparr> in
                   case mntpnt of
                     None \<Rightarrow> (Some dh1, st1)
                   | Some m \<Rightarrow>
                       (if m = [] then (Some dh1, st1)
                        else if \<not> Malloc plat (length m + 2) then
                          badDirHandle (Some dh1)
                            (st1\<lparr>errcode :=
                                   PHYSFS_setErrorCode plat PHYSFS_ERR_OUT_OF_MEMORY (errcode st1)\<rparr>)
                        else (Some (dh1\<lparr>mountPoint := Some (m @ ''/'')\<rparr>), st1))))))"

text \<open>\<^verbatim>\<open>freeDirHandle\<close>: \<open>openList\<close> is the list of open files to look through.\<close>

definition freeDirHandle ::
    "'o platform \<Rightarrow> ('a, 'o) DirHandle option \<Rightarrow> 'o FileHandle list \<Rightarrow> ('a, 'o) physfs_state
       \<Rightarrow> bool \<times> ('a, 'o) physfs_state" where
  "freeDirHandle plat dh openList st =
     (case dh of
        None \<Rightarrow> (True, st)
      | Some h \<Rightarrow>
          (if list_ex (\<lambda>i. dirHandle i = dh_ptr h) openList then
             (False, st\<lparr>errcode := PHYSFS_setErrorCode plat PHYSFS_ERR_FILES_STILL_OPEN (errcode st)\<rparr>)
           else (True, st\<lparr>closedArchives := closedArchives st @ [opaque h]\<rparr>)))"

subsection \<open>Mounting and unmounting\<close>

text \<open>
  \<^verbatim>\<open>doMount\<close>. The loop over the search path looks for a handle of the same \<^verbatim>\<open>dirName\<close> and
  leaves \<^verbatim>\<open>prev\<close> at the last handle, so appending is appending to the list.
\<close>

definition doMount ::
    "'o platform \<Rightarrow> 'o PHYSFS_Io option \<Rightarrow> string option \<Rightarrow> string option \<Rightarrow> int
       \<Rightarrow> (string, 'o) physfs_state \<Rightarrow> bool \<times> (string, 'o) physfs_state" where
  "doMount plat io0 fname0 mountPoint0 appendToPath st =
     (case fname0 of
        None \<Rightarrow>
          (False, st\<lparr>errcode := PHYSFS_setErrorCode plat PHYSFS_ERR_INVALID_ARGUMENT (errcode st)\<rparr>)
      | Some fname \<Rightarrow>
          (let mountPoint' = (case mountPoint0 of None \<Rightarrow> ''/'' | Some m \<Rightarrow> m) in
           if list_ex (\<lambda>i. dirName i = Some fname) (searchPath st) then (True, st)
           else
             (case createDirHandle plat io0 fname (Some mountPoint') False st of
                (None, st1) \<Rightarrow> (False, st1)
              | (Some dh, st1) \<Rightarrow>
                  (if appendToPath \<noteq> 0 then (True, st1\<lparr>searchPath := searchPath st1 @ [dh]\<rparr>)
                   else (True, st1\<lparr>searchPath := dh # searchPath st1\<rparr>)))))"

definition PHYSFS_mount ::
    "'o platform \<Rightarrow> string option \<Rightarrow> string option \<Rightarrow> int
       \<Rightarrow> (string, 'o) physfs_state \<Rightarrow> bool \<times> (string, 'o) physfs_state" where
  "PHYSFS_mount plat newDir mountPoint0 appendToPath st =
     (if newDir = None then
        (False, st\<lparr>errcode := PHYSFS_setErrorCode plat PHYSFS_ERR_INVALID_ARGUMENT (errcode st)\<rparr>)
      else doMount plat None newDir mountPoint0 appendToPath st)"

text \<open>
  \<^verbatim>\<open>PHYSFS_unmount\<close>. \<open>prev\<close> are the handles before \<open>i\<close>; the handles of a search path
  all have a \<^verbatim>\<open>dirName\<close> (\<^verbatim>\<open>createDirHandle\<close> returns no other), which the \<^verbatim>\<open>strcmp\<close> of the
  source relies on.
\<close>

fun unmount_loop ::
    "'o platform \<Rightarrow> string \<Rightarrow> ('a, 'o) DirHandle list \<Rightarrow> ('a, 'o) DirHandle list
       \<Rightarrow> ('a, 'o) physfs_state \<Rightarrow> bool \<times> ('a, 'o) physfs_state" where
  "unmount_loop plat oldDir prev [] st =
     (False, st\<lparr>errcode := PHYSFS_setErrorCode plat PHYSFS_ERR_NOT_MOUNTED (errcode st)\<rparr>)"
| "unmount_loop plat oldDir prev (i # next) st =
     (if dirName i = Some oldDir then
        (case freeDirHandle plat (Some i) (openReadList st) st of
           (False, st1) \<Rightarrow> (False, st1)
         | (True, st1) \<Rightarrow> (True, st1\<lparr>searchPath := prev @ next\<rparr>))
      else unmount_loop plat oldDir (prev @ [i]) next st)"

definition PHYSFS_unmount ::
    "'o platform \<Rightarrow> string option \<Rightarrow> ('a, 'o) physfs_state
       \<Rightarrow> bool \<times> ('a, 'o) physfs_state" where
  "PHYSFS_unmount plat oldDir0 st =
     (case oldDir0 of
        None \<Rightarrow>
          (False, st\<lparr>errcode := PHYSFS_setErrorCode plat PHYSFS_ERR_INVALID_ARGUMENT (errcode st)\<rparr>)
      | Some oldDir \<Rightarrow> unmount_loop plat oldDir [] (searchPath st) st)"

subsection \<open>Closing files\<close>

text \<open>
  \<^verbatim>\<open>closeHandleInOpenList\<close>: \<open>-1\<close> is a failure to close, \<open>0\<close> a handle that is not in
  the list, \<open>1\<close> success. The list returned holds the handle as the attempt left it.
\<close>

fun closeHandleInOpenList ::
    "'o FileHandle list \<Rightarrow> nat \<Rightarrow> ErrState \<Rightarrow> int \<times> 'o FileHandle list \<times> ErrState" where
  "closeHandleInOpenList [] handle err = (0, [], err)"
| "closeHandleInOpenList (i # rest) handle err =
     (if fh_ptr i = handle then
        (if \<not> forReading i then
           (case PHYSFS_flush i err of
              (False, i1, err1) \<Rightarrow> (-1, i1 # rest, err1)
            | (True, i1, err1) \<Rightarrow>
                (case io_flush (io i1) of
                   None \<Rightarrow> (1, rest, err1)
                 | Some fl \<Rightarrow>
                     (case fl (io_opaque (io i1)) err1 of
                        (False, opq, err2) \<Rightarrow>
                          (-1, i1\<lparr>io := (io i1)\<lparr>io_opaque := opq\<rparr>\<rparr> # rest, err2)
                      | (True, opq, err2) \<Rightarrow> (1, rest, err2))))
         else (1, rest, err))
      else
        (case closeHandleInOpenList rest handle err of
           (rc, rest1, err1) \<Rightarrow> (rc, i # rest1, err1)))"

definition PHYSFS_close ::
    "'o platform \<Rightarrow> nat \<Rightarrow> ('a, 'o) physfs_state \<Rightarrow> bool \<times> ('a, 'o) physfs_state" where
  "PHYSFS_close plat handle st =
     (case closeHandleInOpenList (openReadList st) handle (errcode st) of
        (rc, rl, err1) \<Rightarrow>
          (let st1 = st\<lparr>openReadList := rl, errcode := err1\<rparr> in
           if rc = -1 then (False, st1)
           else if rc = 0 then
             (case closeHandleInOpenList (openWriteList st1) handle (errcode st1) of
                (rc2, wl, err2) \<Rightarrow>
                  (let st2 = st1\<lparr>openWriteList := wl, errcode := err2\<rparr> in
                   if rc2 = -1 then (False, st2)
                   else if rc2 = 0 then
                     (False, st2\<lparr>errcode :=
                                 PHYSFS_setErrorCode plat PHYSFS_ERR_INVALID_ARGUMENT (errcode st2)\<rparr>)
                   else (True, st2)))
           else (True, st1)))"

subsection \<open>Path verification\<close>

text \<open>
  The \<^verbatim>\<open>while (1)\<close> loop of \<^verbatim>\<open>verifyPath\<close>. \<open>start\<close> is the offset of the pointer
  \<^verbatim>\<open>start\<close> in \<open>fname\<close>; the archiver's \<^verbatim>\<open>stat\<close> sees \<open>fname\<close> cut at \<^verbatim>\<open>end\<close>. The result is
  \<^verbatim>\<open>retval\<close> and the error state.
\<close>

function verifyPath_loop ::
    "'o platform \<Rightarrow> (string \<Rightarrow> ErrState \<Rightarrow> bool \<times> PHYSFS_FileType \<times> ErrState) \<Rightarrow> bool
       \<Rightarrow> string \<Rightarrow> nat \<Rightarrow> ErrState \<Rightarrow> bool \<times> ErrState" where
  "verifyPath_loop plat stat' allowMissing fname start err =
     (let end' = strchr_slash (drop start fname) in
      case stat' (case end' of None \<Rightarrow> fname | Some n \<Rightarrow> take (start + n) fname) err of
        (rc0, ft, err1) \<Rightarrow>
          (let rc = (rc0 \<and> ft = PHYSFS_FILETYPE_SYMLINK);
               retval = \<not> (\<not> rc0 \<and> currentErrorCode err1 = PHYSFS_ERR_NOT_FOUND)
           in if rc then (False, PHYSFS_setErrorCode plat PHYSFS_ERR_SYMLINK_FORBIDDEN err1)
              else if \<not> retval then (end' = None \<or> allowMissing, err1)
              else
                (case end' of
                   None \<Rightarrow> (retval, err1)
                 | Some n \<Rightarrow>
                     verifyPath_loop plat stat' allowMissing fname (start + n + 1) err1)))"
  by pat_completeness auto
termination
  by (relation "measure (\<lambda>(plat, stat', allowMissing, fname, start, err). length fname - start)")
     (auto dest!: strchr_slash_less [OF sym])

declare verifyPath_loop.simps [simp del]

text \<open>
  The block of \<^verbatim>\<open>verifyPath\<close> under \<^verbatim>\<open>if (h->mountPoint != NULL)\<close>: the error code of the
  \<^verbatim>\<open>BAIL_IF\<close> that fires, or \<^verbatim>\<open>fname\<close> moved past the mount point. The source asserts that
  a mount point has more than one character.
\<close>

definition verifyPath_mountPoint :: "('a, 'o) DirHandle \<Rightarrow> string \<Rightarrow> PHYSFS_ErrorCode + string" where
  "verifyPath_mountPoint h fname0 =
     (case mountPoint h of
        None \<Rightarrow> Inr fname0
      | Some mp \<Rightarrow>
          (let mntpntlen = length mp; len = length fname0 in
           if len < mntpntlen - 1 then Inl PHYSFS_ERR_NOT_FOUND
           else if \<not> strncmp_eq mp fname0 (mntpntlen - 1) then Inl PHYSFS_ERR_NOT_FOUND
           else if len > mntpntlen - 1 \<and> fname0 ! (mntpntlen - 1) \<noteq> CHR ''/'' then
             Inl PHYSFS_ERR_NOT_FOUND
           else
             (let fname1 = drop (mntpntlen - 1) fname0 in
              Inr (if fname1 \<noteq> [] \<and> hd fname1 = CHR ''/'' then tl fname1 else fname1))))"

text \<open>\<^verbatim>\<open>verifyPath\<close>: the return value, \<^verbatim>\<open>*_fname\<close> afterwards and the error state.\<close>

definition verifyPath ::
    "'o platform \<Rightarrow> bool \<Rightarrow> ('a, 'o) DirHandle \<Rightarrow> string \<Rightarrow> bool \<Rightarrow> ErrState
       \<Rightarrow> bool \<times> string \<times> ErrState" where
  "verifyPath plat allowSymLinks' h fname0 allowMissing err =
     (if fname0 = [] then (True, fname0, err)
      else
        (case verifyPath_mountPoint h fname0 of
           Inl e \<Rightarrow> (False, fname0, PHYSFS_setErrorCode plat e err)
         | Inr fname \<Rightarrow>
             (if \<not> allowSymLinks' then
                (case verifyPath_loop plat (stat (funcs h) (opaque h)) allowMissing fname 0 err of
                   (retval, err1) \<Rightarrow> (retval, fname, err1))
              else (True, fname, err))))"

text \<open>\<^verbatim>\<open>partOfMountPoint\<close>.\<close>

definition partOfMountPoint :: "('a, 'o) DirHandle \<Rightarrow> string \<Rightarrow> bool" where
  "partOfMountPoint h fname =
     (case mountPoint h of
        None \<Rightarrow> False
      | Some mp \<Rightarrow>
          (if fname = [] then True
           else
             (let len = length fname; mntpntlen = length mp in
              if len > mntpntlen then False
              else if len + 1 = mntpntlen then False
              else if \<not> strncmp_eq fname mp len then False
              else mp ! len = CHR ''/'')))"

text \<open>Closing the files with the given handles, one after the other.\<close>

definition close_handles ::
    "'o platform \<Rightarrow> nat list \<Rightarrow> ('a, 'o) physfs_state \<Rightarrow> ('a, 'o) physfs_state" where
  "close_handles plat handles st = fold (\<lambda>handle s. snd (PHYSFS_close plat handle s)) handles st"

subsection \<open>Enumeration\<close>

text \<open>
  An enumeration callback takes its data, the error state, \<^verbatim>\<open>origdir\<close> and the file name, and
  returns its verdict, its data and the error state.
\<close>

type_synonym 'd enum_callback =
  "'d \<Rightarrow> ErrState \<Rightarrow> string \<Rightarrow> string
     \<Rightarrow> PHYSFS_EnumerateCallbackResult \<times> 'd \<times> ErrState"

text \<open>
  How an archiver's \<^verbatim>\<open>enumerate\<close> calls back, after the loop of \<^verbatim>\<open>__PHYSFS_DirTreeEnumerate\<close>
  (the enumerator \<^verbatim>\<open>physfs.c\<close> offers to archivers): one call per entry while the verdict
  is \<^verbatim>\<open>PHYSFS_ENUM_OK\<close>; the verdict \<^verbatim>\<open>PHYSFS_ENUM_ERROR\<close> sets \<^verbatim>\<open>PHYSFS_ERR_APP_CALLBACK\<close>.
\<close>

fun enumerate_callbacks ::
    "'o platform \<Rightarrow> 'd enum_callback \<Rightarrow> string \<Rightarrow> string list \<Rightarrow> 'd \<Rightarrow> ErrState
       \<Rightarrow> PHYSFS_EnumerateCallbackResult \<times> 'd \<times> ErrState" where
  "enumerate_callbacks plat cb origdir [] d err = (PHYSFS_ENUM_OK, d, err)"
| "enumerate_callbacks plat cb origdir (name # names) d err =
     (case cb d err origdir name of
        (retval, d1, err1) \<Rightarrow>
          (if retval = PHYSFS_ENUM_ERROR then
             (retval, d1, PHYSFS_setErrorCode plat PHYSFS_ERR_APP_CALLBACK err1)
           else if retval = PHYSFS_ENUM_OK then enumerate_callbacks plat cb origdir names d1 err1
           else (retval, d1, err1)))"

definition archiver_enumerate ::
    "'o platform \<Rightarrow> ('a, 'o) PHYSFS_Archiver \<Rightarrow> 'a \<Rightarrow> string \<Rightarrow> 'd enum_callback \<Rightarrow> string
       \<Rightarrow> 'd \<Rightarrow> ErrState \<Rightarrow> PHYSFS_EnumerateCallbackResult \<times> 'd \<times> ErrState" where
  "archiver_enumerate plat fns opq dname cb origdir d err =
     (case enumerate_entries fns opq dname err of
        (None, err1) \<Rightarrow> (PHYSFS_ENUM_ERROR, d, err1)
      | (Some names, err1) \<Rightarrow> enumerate_callbacks plat cb origdir names d err1)"

text \<open>
  \<^verbatim>\<open>enumerateFromMountPoint\<close>; it is called for a handle whose mount point is not null
  (\<^verbatim>\<open>partOfMountPoint\<close> held).
\<close>

definition enumerateFromMountPoint ::
    "'o platform \<Rightarrow> ('a, 'o) DirHandle \<Rightarrow> string \<Rightarrow> 'd enum_callback \<Rightarrow> string \<Rightarrow> 'd
       \<Rightarrow> ErrState \<Rightarrow> PHYSFS_EnumerateCallbackResult \<times> 'd \<times> ErrState" where
  "enumerateFromMountPoint plat i arcfname callback fname' d err =
     (case mountPoint i of
        None \<Rightarrow> (PHYSFS_ENUM_OK, d, err)
      | Some mp \<Rightarrow>
          (let len = length arcfname; slen = length mp + 1 in
           if \<not> PHYSFS_smallAlloc plat slen then
             (PHYSFS_ENUM_ERROR, d, PHYSFS_setErrorCode plat PHYSFS_ERR_OUT_OF_MEMORY err)
           else
             (let ptr = drop (if len \<noteq> 0 then len + 1 else 0) mp in
              case callback d err fname' (takeWhile (\<lambda>c. c \<noteq> CHR ''/'') ptr) of
                (retval, d1, err1) \<Rightarrow>
                  (if retval = PHYSFS_ENUM_ERROR then
                     (retval, d1, PHYSFS_setErrorCode plat PHYSFS_ERR_APP_CALLBACK err1)
                   else (retval, d1, err1)))))"

text \<open>
  \<^verbatim>\<open>enumCallbackFilterSymLinks\<close>. Of the \<^verbatim>\<open>SymlinkFilterData\<close>, the callback, the handle and
  the directory are fixed for one enumeration; the data that changes is the application's
  data and \<^verbatim>\<open>errcode\<close>.
\<close>

definition enumCallbackFilterSymLinks ::
    "'o platform \<Rightarrow> 'd enum_callback \<Rightarrow> ('a, 'o) DirHandle \<Rightarrow> string
       \<Rightarrow> ('d \<times> PHYSFS_ErrorCode) enum_callback" where
  "enumCallbackFilterSymLinks plat callback dh arcfname data err origdir fname =
     (case data of
        (callbackData, errcode') \<Rightarrow>
          (let trimmedDir = (if arcfname \<noteq> [] \<and> hd arcfname = CHR ''/'' then tl arcfname
                             else arcfname);
               slen = length trimmedDir + length fname + 2
           in if \<not> PHYSFS_smallAlloc plat slen then
                (PHYSFS_ENUM_ERROR, (callbackData, PHYSFS_ERR_OUT_OF_MEMORY), err)
              else
                (case stat (funcs dh) (opaque dh)
                        (trimmedDir @ (if trimmedDir \<noteq> [] then ''/'' else []) @ fname) err of
                   (False, ft, err1) \<Rightarrow>
                     (PHYSFS_ENUM_ERROR, (callbackData, currentErrorCode err1), err1)
                 | (True, ft, err1) \<Rightarrow>
                     (if ft \<noteq> PHYSFS_FILETYPE_SYMLINK then
                        (case callback callbackData err1 origdir fname of
                           (retval, d1, err2) \<Rightarrow>
                             (retval,
                              (d1, if retval = PHYSFS_ENUM_ERROR then PHYSFS_ERR_APP_CALLBACK
                                   else errcode'),
                              err2))
                      else (PHYSFS_ENUM_OK, (callbackData, errcode'), err1)))))"

text \<open>
  The body of the \<^verbatim>\<open>for\<close> loop of \<^verbatim>\<open>PHYSFS_enumerate\<close> for the handle \<open>i\<close>; a \<^verbatim>\<open>continue\<close>
  leaves \<^verbatim>\<open>retval\<close> at \<^verbatim>\<open>PHYSFS_ENUM_OK\<close>.
\<close>

definition enumerate_handle ::
    "'o platform \<Rightarrow> bool \<Rightarrow> 'd enum_callback \<Rightarrow> string \<Rightarrow> string \<Rightarrow> ('a, 'o) DirHandle \<Rightarrow> 'd
       \<Rightarrow> ErrState \<Rightarrow> PHYSFS_EnumerateCallbackResult \<times> 'd \<times> ErrState" where
  "enumerate_handle plat allowSymLinks' cb fn' fname i d err =
     (if partOfMountPoint i fname then enumerateFromMountPoint plat i fname cb fn' d err
      else
        (case verifyPath plat allowSymLinks' i fname False err of
           (False, arcfname, err1) \<Rightarrow> (PHYSFS_ENUM_OK, d, err1)
         | (True, arcfname, err1) \<Rightarrow>
             (case stat (funcs i) (opaque i) arcfname err1 of
                (rc, ft, err2) \<Rightarrow>
                  (if \<not> rc \<and> currentErrorCode err2 = PHYSFS_ERR_NOT_FOUND then
                     (PHYSFS_ENUM_OK, d, err2)
                   else if ft \<noteq> PHYSFS_FILETYPE_DIRECTORY then (PHYSFS_ENUM_OK, d, err2)
                   else if \<not> allowSymLinks' \<and> supportsSymlinks (funcs i) then
                     (case archiver_enumerate plat (funcs i) (opaque i) arcfname
                             (enumCallbackFilterSymLinks plat cb i arcfname) fn'
                             (d, PHYSFS_ERR_OK) err2 of
                        (retval, (d1, errcode'), err3) \<Rightarrow>
                          (retval, d1,
                           if retval = PHYSFS_ENUM_ERROR
                              \<and> currentErrorCode err3 = PHYSFS_ERR_APP_CALLBACK
                           then PHYSFS_setErrorCode plat errcode' err3 else err3))
                   else archiver_enumerate plat (funcs i) (opaque i) arcfname cb fn' d err2))))"

fun enumerate_searchPath ::
    "'o platform \<Rightarrow> bool \<Rightarrow> 'd enum_callback \<Rightarrow> string \<Rightarrow> string \<Rightarrow> ('a, 'o) DirHandle list
       \<Rightarrow> 'd \<Rightarrow> ErrState \<Rightarrow> PHYSFS_EnumerateCallbackResult \<times> 'd \<times> ErrState" where
  "enumerate_searchPath plat allowSymLinks' cb fn' fname [] d err = (PHYSFS_ENUM_OK, d, err)"
| "enumerate_searchPath plat allowSymLinks' cb fn' fname (i # rest) d err =
     (case enumerate_handle plat allowSymLinks' cb fn' fname i d err of
        (retval, d1, err1) \<Rightarrow>
          (if retval = PHYSFS_ENUM_OK then
             enumerate_searchPath plat allowSymLinks' cb fn' fname rest d1 err1
           else (retval, d1, err1)))"

text \<open>
  \<^verbatim>\<open>PHYSFS_enumerate\<close>: the return value, the callback's data and the state (of which only
  the error state changes). A path that the sanitizer refuses sets \<^verbatim>\<open>retval\<close> to
  \<^verbatim>\<open>PHYSFS_ENUM_STOP\<close>.
\<close>

definition PHYSFS_enumerate ::
    "'o platform \<Rightarrow> string option \<Rightarrow> 'd enum_callback option \<Rightarrow> 'd \<Rightarrow> ('a, 'o) physfs_state
       \<Rightarrow> bool \<times> 'd \<times> ('a, 'o) physfs_state" where
  "PHYSFS_enumerate plat fn0 cb0 d st =
     (case fn0 of
        None \<Rightarrow>
          (False, d, st\<lparr>errcode := PHYSFS_setErrorCode plat PHYSFS_ERR_INVALID_ARGUMENT (errcode st)\<rparr>)
      | Some fn' \<Rightarrow>
          (case cb0 of
             None \<Rightarrow>
               (False, d,
                st\<lparr>errcode := PHYSFS_setErrorCode plat PHYSFS_ERR_INVALID_ARGUMENT (errcode st)\<rparr>)
           | Some cb \<Rightarrow>
               (if \<not> PHYSFS_smallAlloc plat (length fn' + 1) then
                  (False, d,
                   st\<lparr>errcode := PHYSFS_setErrorCode plat PHYSFS_ERR_OUT_OF_MEMORY (errcode st)\<rparr>)
                else
                  (case (case sanitizePlatformIndependentPath fn' of
                           None \<Rightarrow>
                             (PHYSFS_ENUM_STOP, d,
                              PHYSFS_setErrorCode plat PHYSFS_ERR_BAD_FILENAME (errcode st))
                         | Some fname \<Rightarrow>
                             enumerate_searchPath plat (allowSymLinks st) cb fn' fname
                               (searchPath st) d (errcode st)) of
                     (retval, d1, err1) \<Rightarrow>
                       (retval \<noteq> PHYSFS_ENUM_ERROR, d1, st\<lparr>errcode := err1\<rparr>)))))"

text \<open>
  A property of the data handed to an enumeration callback that every call of the callback
  keeps, whatever it is called with.
\<close>

definition cb_keeps :: "('d \<Rightarrow> bool) \<Rightarrow> 'd enum_callback \<Rightarrow> bool" where
  "cb_keeps P cb \<longleftrightarrow> (\<forall>d e origdir fname. P d \<longrightarrow> P (fst (snd (cb d e origdir fname))))"

subsection \<open>\<^verbatim>\<open>PHYSFS_enumerateFiles\<close>\<close>

text \<open>
  \<^verbatim>\<open>EnumStringListCallbackData\<close>: \<open>ecd_list\<close> are the entries of the array \<^verbatim>\<open>list\<close> in
  use, \<open>ecd_size\<close> is the counter \<^verbatim>\<open>size\<close>.
\<close>

record EnumStringListCallbackData =
  ecd_list :: "string list"
  ecd_size :: nat
  ecd_errcode :: PHYSFS_ErrorCode

text \<open>
  \<^verbatim>\<open>locateInStringList\<close>: the binary search over the first \<^verbatim>\<open>*pos\<close> entries. The result is
  the return value and \<^verbatim>\<open>*pos\<close> afterwards. The counters are \<^verbatim>\<open>PHYSFS_uint32\<close>; with
  \<open>len > 0\<close> the subtraction \<open>len - (half_len + 1)\<close> cannot wrap.
\<close>

function locateInStringList_loop :: "string \<Rightarrow> string list \<Rightarrow> nat \<Rightarrow> nat \<Rightarrow> bool \<times> nat" where
  "locateInStringList_loop str lst lo len =
     (if len > 0 then
        (let half_len = len div 2;
             middle = u32 (lo + half_len);
             cmp = strcmp (lst ! middle) str
         in if cmp = 0 then (True, lo)
            else if cmp > 0 then locateInStringList_loop str lst lo half_len
            else locateInStringList_loop str lst (u32 (middle + 1)) (len - (half_len + 1)))
      else (False, lo))"
  by pat_completeness auto
termination
  by (relation "measure (\<lambda>(str, lst, lo, len). len)") auto

declare locateInStringList_loop.simps [simp del]

definition locateInStringList :: "string \<Rightarrow> string list \<Rightarrow> nat \<Rightarrow> bool \<times> nat" where
  "locateInStringList str lst pos =
     (case locateInStringList_loop str lst 0 pos of
        (True, lo) \<Rightarrow> (True, pos)
      | (False, lo) \<Rightarrow> (False, lo))"

text \<open>\<^verbatim>\<open>enumFilesCallback\<close>: the new string goes to index \<open>pos\<close>, the entries from there on
  move up by one.\<close>

definition enumFilesCallback :: "'o platform \<Rightarrow> EnumStringListCallbackData enum_callback" where
  "enumFilesCallback plat pecd err origdir str =
     (case locateInStringList str (ecd_list pecd) (ecd_size pecd) of
        (True, pos) \<Rightarrow> (PHYSFS_ENUM_OK, pecd, err)
      | (False, pos) \<Rightarrow>
          (let ptr_nonnull = Realloc plat (u32 (ecd_size pecd + 2) * sizeof_ptr);
               newstr_nonnull = Malloc plat (length str + 1)
           in if \<not> ptr_nonnull \<or> \<not> newstr_nonnull then
                (PHYSFS_ENUM_ERROR, pecd\<lparr>ecd_errcode := PHYSFS_ERR_OUT_OF_MEMORY\<rparr>, err)
              else
                (PHYSFS_ENUM_OK,
                 pecd\<lparr>ecd_list := take pos (ecd_list pecd) @ [str] @ drop pos (ecd_list pecd),
                      ecd_size := u32 (ecd_size pecd + 1)\<rparr>,
                 err)))"

text \<open>
  What the callback keeps true of its data: the entries in use are in strictly ascending
  order, and the counter is a 32-bit value within the array.
\<close>

definition ecd_ok :: "EnumStringListCallbackData \<Rightarrow> bool" where
  "ecd_ok pecd \<longleftrightarrow>
     ecd_size pecd \<le> length (ecd_list pecd) \<and> ecd_size pecd < 2 ^ 32 \<and>
     sorted_wrt (<) (take (ecd_size pecd) (ecd_list pecd))"

text \<open>
  \<^verbatim>\<open>PHYSFS_enumerateFiles\<close>: \<open>None\<close> is the null result; otherwise the strings of the
  array in front of its terminating null pointer.
\<close>

definition PHYSFS_enumerateFiles ::
    "'o platform \<Rightarrow> string option \<Rightarrow> ('a, 'o) physfs_state
       \<Rightarrow> string list option \<times> ('a, 'o) physfs_state" where
  "PHYSFS_enumerateFiles plat path st =
     (if \<not> Malloc plat sizeof_ptr then
        (None, st\<lparr>errcode := PHYSFS_setErrorCode plat PHYSFS_ERR_OUT_OF_MEMORY (errcode st)\<rparr>)
      else
        (case PHYSFS_enumerate plat path (Some (enumFilesCallback plat))
                \<lparr>ecd_list = [], ecd_size = 0, ecd_errcode = PHYSFS_ERR_OK\<rparr> st of
           (False, ecd, st1) \<Rightarrow>
             (None,
              if currentErrorCode (errcode st1) = PHYSFS_ERR_APP_CALLBACK
              then st1\<lparr>errcode := PHYSFS_setErrorCode plat (ecd_errcode ecd) (errcode st1)\<rparr>
              else st1)
         | (True, ecd, st1) \<Rightarrow> (Some (take (ecd_size ecd) (ecd_list ecd)), st1)))"

subsection \<open>\<^verbatim>\<open>PHYSFS_openRead\<close>\<close>

text \<open>The \<^verbatim>\<open>for\<close> loop of \<^verbatim>\<open>PHYSFS_openRead\<close>: the handle that opened the file and the
  \<^verbatim>\<open>PHYSFS_Io\<close>, if any.\<close>

fun openRead_searchPath ::
    "'o platform \<Rightarrow> bool \<Rightarrow> ('a, 'o) DirHandle list \<Rightarrow> string \<Rightarrow> ErrState
       \<Rightarrow> (('a, 'o) DirHandle \<times> 'o PHYSFS_Io) option \<times> ErrState" where
  "openRead_searchPath plat allowSymLinks' [] fname err = (None, err)"
| "openRead_searchPath plat allowSymLinks' (i # rest) fname err =
     (case verifyPath plat allowSymLinks' i fname False err of
        (False, arcfname, err1) \<Rightarrow> openRead_searchPath plat allowSymLinks' rest fname err1
      | (True, arcfname, err1) \<Rightarrow>
          (case openRead (funcs i) (opaque i) arcfname err1 of
             (None, err2) \<Rightarrow> openRead_searchPath plat allowSymLinks' rest fname err2
           | (Some io', err2) \<Rightarrow> (Some (i, io'), err2)))"

definition PHYSFS_openRead ::
    "'o platform \<Rightarrow> string option \<Rightarrow> ('a, 'o) physfs_state
       \<Rightarrow> 'o FileHandle option \<times> ('a, 'o) physfs_state" where
  "PHYSFS_openRead plat fname0 st =
     (case fname0 of
        None \<Rightarrow>
          (None, st\<lparr>errcode := PHYSFS_setErrorCode plat PHYSFS_ERR_INVALID_ARGUMENT (errcode st)\<rparr>)
      | Some fname' \<Rightarrow>
          (if \<not> PHYSFS_smallAlloc plat (length fname' + 1) then
             (None, st\<lparr>errcode := PHYSFS_setErrorCode plat PHYSFS_ERR_OUT_OF_MEMORY (errcode st)\<rparr>)
           else
             (case sanitizePlatformIndependentPath fname' of
                None \<Rightarrow>
                  (None,
                   st\<lparr>errcode := PHYSFS_setErrorCode plat PHYSFS_ERR_BAD_FILENAME (errcode st)\<rparr>)
              | Some fname \<Rightarrow>
                  (if searchPath st = [] then
                     (None,
                      st\<lparr>errcode := PHYSFS_setErrorCode plat PHYSFS_ERR_NOT_FOUND (errcode st)\<rparr>)
                   else
                     (case openRead_searchPath plat (allowSymLinks st) (searchPath st) fname
                             (errcode st) of
                        (None, err1) \<Rightarrow> (None, st\<lparr>errcode := err1\<rparr>)
                      | (Some (i, io'), err1) \<Rightarrow>
                          (if \<not> Malloc plat sizeof_FileHandle then
                             (None,
                              st\<lparr>errcode := PHYSFS_setErrorCode plat PHYSFS_ERR_OUT_OF_MEMORY err1\<rparr>)
                           else
                             (let fh = \<lparr>fh_ptr = next_ptr st, io = io', forReading = True,
                                        dirHandle = dh_ptr i, buffer = None, bufsize = 0,
                                        buffill = 0, bufpos = 0\<rparr>
                              in (Some fh,
                                  st\<lparr>errcode := err1,
                                     openReadList := fh # openReadList st,
                                     next_ptr := Suc (next_ptr st)\<rparr>))))))))"

subsection \<open>The mount procedure in the words of the specification\<close>




subsection \<open>A small platform for the examples\<close>

text \<open>
  A file system with the directory \<^verbatim>\<open>/data\<close>, holding the regular files \<^verbatim>\<open>foo\<close>, \<^verbatim>\<open>bar\<close> and
  \<^verbatim>\<open>baz\<close> (in that order), and the regular file \<^verbatim>\<open>/pak.zip\<close>. An open file is its content
  and the position in it. Every allocation succeeds, so every error code is recorded.
\<close>

definition demo_files :: "(string \<times> string) list" where
  "demo_files =
     [(''/data/foo'', ''hello world''), (''/data/bar'', ''0123456789''), (''/data/baz'', []),
      (''/pak.zip'', ''PK'')]"

definition demo_stat ::
    "string \<Rightarrow> bool \<Rightarrow> ErrState \<Rightarrow> bool \<times> PHYSFS_FileType \<times> ErrState" where
  "demo_stat fname follow err =
     (if fname = ''/data'' \<or> fname = ''/data/'' then (True, PHYSFS_FILETYPE_DIRECTORY, err)
      else if map_of demo_files fname \<noteq> None then (True, PHYSFS_FILETYPE_REGULAR, err)
      else (False, PHYSFS_FILETYPE_OTHER, Some PHYSFS_ERR_NOT_FOUND))"

definition demo_open ::
    "string \<Rightarrow> ErrState \<Rightarrow> (string \<times> nat) option \<times> ErrState" where
  "demo_open fname err =
     (case map_of demo_files fname of
        None \<Rightarrow> (None, Some PHYSFS_ERR_NOT_FOUND)
      | Some content \<Rightarrow> (Some (content, 0), err))"

definition demo_read ::
    "string \<times> nat \<Rightarrow> nat \<Rightarrow> ErrState \<Rightarrow> int \<times> char list \<times> (string \<times> nat) \<times> ErrState" where
  "demo_read h len err =
     (case h of
        (content, pos) \<Rightarrow>
          (let bytes = take len (drop pos content)
           in (int (length bytes), bytes, (content, pos + length bytes), err)))"

definition demo_write ::
    "string \<times> nat \<Rightarrow> char list \<Rightarrow> ErrState \<Rightarrow> int \<times> (string \<times> nat) \<times> ErrState" where
  "demo_write h bytes err =
     (case h of
        (content, pos) \<Rightarrow>
          (int (length bytes),
           (take pos content @ bytes @ drop (pos + length bytes) content, pos + length bytes),
           err))"

definition demo_seek ::
    "string \<times> nat \<Rightarrow> nat \<Rightarrow> ErrState \<Rightarrow> bool \<times> (string \<times> nat) \<times> ErrState" where
  "demo_seek h offset err = (case h of (content, pos) \<Rightarrow> (True, (content, offset), err))"

definition demo_platform :: "(string \<times> nat) platform" where
  "demo_platform =
     \<lparr>Malloc = (\<lambda>n. True),
      Realloc = (\<lambda>n. True),
      smallAlloc_onstack = (\<lambda>n. n < 256),
      platformDirSeparator = CHR ''/'',
      platformStat = demo_stat,
      platformEnumerate_entries =
        (\<lambda>dir err. if dir = ''/data/'' then (Some [''foo'', ''bar'', ''baz''], err)
                    else (None, Some PHYSFS_ERR_NOT_FOUND)),
      platformOpenRead = demo_open,
      platformOpenWrite = demo_open,
      platformOpenAppend = demo_open,
      platformRead = demo_read,
      platformWrite = demo_write,
      platformSeek = demo_seek,
      platformTell = (\<lambda>h. if snd h < 2 ^ 62 then int (snd h) else - 1),
      platformFlush = (\<lambda>h err. (True, h, err))\<rparr>"

text \<open>The state after \<^verbatim>\<open>PHYSFS_init\<close>: nothing mounted, nothing open, symbolic links
  not permitted, and no \<^verbatim>\<open>ErrState\<close> yet for the calling thread.\<close>

definition demo_init :: "(string, string \<times> nat) physfs_state" where
  "demo_init =
     \<lparr>errcode = None, searchPath = [], writeDir = None, openWriteList = [],
      openReadList = [], allowSymLinks = False, closedArchives = [], next_ptr = 1\<rparr>"

text \<open>The state after \<^verbatim>\<open>PHYSFS_mount("/data", NULL, 1)\<close>, and the handle it adds.\<close>

definition demo_mounted :: "(string, string \<times> nat) physfs_state" where
  "demo_mounted = snd (PHYSFS_mount demo_platform (Some ''/data'') None 1 demo_init)"

definition demo_data_handle :: "(string, string \<times> nat) DirHandle" where
  "demo_data_handle =
     \<lparr>dh_ptr = 1, opaque = ''/data/'', dirName = Some ''/data'', mountPoint = None,
      funcs = PHYSFS_Archiver_DIR demo_platform\<rparr>"

text \<open>The state after \<^verbatim>\<open>PHYSFS_openRead("foo")\<close> on top of that, and the file it opens.\<close>

definition demo_opened :: "(string, string \<times> nat) physfs_state" where
  "demo_opened = snd (PHYSFS_openRead demo_platform (Some ''foo'') demo_mounted)"

definition demo_foo_handle :: "(string \<times> nat) FileHandle" where
  "demo_foo_handle =
     \<lparr>fh_ptr = 2, io = nativeIoInterface demo_platform (''hello world'', 0), forReading = True,
      dirHandle = 1, buffer = None, bufsize = 0, buffill = 0, bufpos = 0\<rparr>"

text \<open>
  A file open for reading with a buffer of four bytes, after the first five bytes have been
  read: the buffer holds the bytes 4 to 7 of the file, the stream is at 8.
\<close>

definition demo_buffered_handle :: "(string \<times> nat) FileHandle" where
  "demo_buffered_handle =
     \<lparr>fh_ptr = 2, io = nativeIoInterface demo_platform (''hello world'', 8), forReading = True,
      dirHandle = 1, buffer = Some ''o wo'', bufsize = 4, buffill = 4, bufpos = 1\<rparr>"

text \<open>
  A file open for writing with a buffer of eight bytes, four of them pending, on a stream
  whose \<^verbatim>\<open>write\<close> takes two bytes at a time.
\<close>

definition demo_short_write ::
    "string \<times> nat \<Rightarrow> char list \<Rightarrow> ErrState \<Rightarrow> int \<times> (string \<times> nat) \<times> ErrState" where
  "demo_short_write h bytes err = demo_write h (take 2 bytes) err"

definition demo_pending_handle :: "(string \<times> nat) FileHandle" where
  "demo_pending_handle =
     \<lparr>fh_ptr = 3,
      io = (nativeIoInterface demo_platform ([], 0))\<lparr>io_write := demo_short_write\<rparr>,
      forReading = False, dirHandle = 1, buffer = Some ''abcd0000'', bufsize = 8, buffill = 4,
      bufpos = 0\<rparr>"

text \<open>
  A mounted archive in which \<^verbatim>\<open>dir\<close> is a directory, \<^verbatim>\<open>link\<close>, \<^verbatim>\<open>dir/link\<close> and
  \<^verbatim>\<open>locked/link\<close> are symbolic links, the \<^verbatim>\<open>stat\<close> of \<^verbatim>\<open>locked\<close> fails for want of permission
  and every other name is a regular file.
\<close>

definition demo_link_stat ::
    "unit \<Rightarrow> string \<Rightarrow> ErrState \<Rightarrow> bool \<times> PHYSFS_FileType \<times> ErrState" where
  "demo_link_stat opq name err =
     (if name = ''dir'' then (True, PHYSFS_FILETYPE_DIRECTORY, err)
      else if name = ''link'' \<or> name = ''dir/link'' \<or> name = ''locked/link'' then
        (True, PHYSFS_FILETYPE_SYMLINK, err)
      else if name = ''locked'' then (False, PHYSFS_FILETYPE_OTHER, Some PHYSFS_ERR_PERMISSION)
      else (True, PHYSFS_FILETYPE_REGULAR, err))"

definition demo_link_handle :: "(unit, string \<times> nat) DirHandle" where
  "demo_link_handle =
     \<lparr>dh_ptr = 1, opaque = (), dirName = Some ''links'', mountPoint = None,
      funcs =
        \<lparr>supportsSymlinks = True,
         openArchive = (\<lambda>io' name forWriting err. (None, False, err)),
         enumerate_entries = (\<lambda>opq dir err. (Some [], err)),
         openRead = (\<lambda>opq name err. (None, Some PHYSFS_ERR_NOT_FOUND)),
         stat = demo_link_stat\<rparr>\<rparr>"

section \<open>Properties\<close>

subsection \<open>Error codes and machine integers\<close>

lemma currentErrorCode_simps [simp]:
  "currentErrorCode None = PHYSFS_ERR_OK"
  "currentErrorCode (Some code) = code"
  by (simp_all add: currentErrorCode_def)

lemma setErrorCode_simps [simp]:
  "PHYSFS_setErrorCode plat PHYSFS_ERR_OK es = es"
  "e \<noteq> PHYSFS_ERR_OK \<Longrightarrow> PHYSFS_setErrorCode plat e (Some code) = Some e"
  "e \<noteq> PHYSFS_ERR_OK \<Longrightarrow> Malloc plat sizeof_ErrState \<Longrightarrow> PHYSFS_setErrorCode plat e es = Some e"
  by (simp_all add: PHYSFS_setErrorCode_def split: option.splits)

text \<open>
  A code is recorded whenever the thread has an \<^verbatim>\<open>ErrState\<close> or the allocator has room for
  one; otherwise the thread is left without one.
\<close>

lemma setErrorCode_recorded:
  assumes "e \<noteq> PHYSFS_ERR_OK" and "es \<noteq> None \<or> Malloc plat sizeof_ErrState"
  shows "PHYSFS_setErrorCode plat e es = Some e"
  using assms by (cases es) (auto simp: PHYSFS_setErrorCode_def)

lemma setErrorCode_dropped:
  assumes "\<not> Malloc plat sizeof_ErrState"
  shows "PHYSFS_setErrorCode plat e None = None"
  using assms by (simp add: PHYSFS_setErrorCode_def)

lemma s64_id: "- (2 ^ 63) \<le> x \<Longrightarrow> x < 2 ^ 63 \<Longrightarrow> s64 x = x"
  by (simp add: s64_def)

lemma s64_high:
  assumes "2 ^ 63 \<le> x" and "x < 2 ^ 64 + 2 ^ 63"
  shows "s64 x = x - 2 ^ 64"
proof -
  have "(x + 2 ^ 63) mod 2 ^ 64 = (x + 2 ^ 63 - 2 ^ 64) mod 2 ^ 64"
    by (metis minus_mod_self2)
  also have "\<dots> = x + 2 ^ 63 - 2 ^ 64"
    using assms by (intro mod_pos_pos_trivial) simp_all
  finally show ?thesis by (simp add: s64_def)
qed

lemma s64_le_self: "0 \<le> x \<Longrightarrow> s64 x \<le> x"
proof -
  assume "0 \<le> x"
  then have "(x + 2 ^ 63) mod 2 ^ 64 \<le> x + 2 ^ 63"
    by (intro zmod_le_nonneg_dividend) simp
  then show ?thesis by (simp add: s64_def)
qed

lemma u64_id: "0 \<le> x \<Longrightarrow> x < 2 ^ 64 \<Longrightarrow> u64 x = x"
  by (simp add: u64_def)

lemma u32_id: "x < 2 ^ 32 \<Longrightarrow> u32 x = x"
  by (simp add: u32_def)

subsection \<open>The example platform, evaluated\<close>

lemma demo_alloc [simp]:
  "Malloc demo_platform n" "Realloc demo_platform n" "PHYSFS_smallAlloc demo_platform n"
  by (simp_all add: demo_platform_def PHYSFS_smallAlloc_def PHYSFS_initSmallAlloc_def)

lemma demo_setErrorCode [simp]:
  "e \<noteq> PHYSFS_ERR_OK \<Longrightarrow> PHYSFS_setErrorCode demo_platform e es = Some e"
  by simp

lemma demo_platform_simps [simp]:
  "platformStat demo_platform = demo_stat"
  "platformDirSeparator demo_platform = CHR ''/''"
  "platformOpenRead demo_platform = demo_open"
  "platformOpenWrite demo_platform = demo_open"
  "platformOpenAppend demo_platform = demo_open"
  "platformEnumerate_entries demo_platform =
     (\<lambda>dir err. if dir = ''/data/'' then (Some [''foo'', ''bar'', ''baz''], err)
                 else (None, Some PHYSFS_ERR_NOT_FOUND))"
  by (simp_all add: demo_platform_def)

lemma demo_mount_eval:
  "PHYSFS_mount demo_platform (Some ''/data'') None 1 demo_init
     = (True, demo_init\<lparr>searchPath := [demo_data_handle], next_ptr := 2\<rparr>)"
  by (simp add: PHYSFS_mount_def doMount_def createDirHandle_def openDirectory_def
      tryOpenDir_def PHYSFS_Archiver_DIR_def DIR_openArchive_def demo_stat_def
      sanitizePlatformIndependentPath_def demo_init_def demo_data_handle_def)

lemma demo_mounted_eval:
  "demo_mounted = demo_init\<lparr>searchPath := [demo_data_handle], next_ptr := 2\<rparr>"
  by (simp add: demo_mounted_def demo_mount_eval)

lemma demo_data_handle_simps [simp]:
  "mountPoint demo_data_handle = None"
  "opaque demo_data_handle = ''/data/''"
  "dirName demo_data_handle = Some ''/data''"
  "dh_ptr demo_data_handle = 1"
  "stat (funcs demo_data_handle) = DIR_stat demo_platform"
  "openRead (funcs demo_data_handle) = DIR_openRead demo_platform"
  "enumerate_entries (funcs demo_data_handle) = DIR_enumerate_entries demo_platform"
  "supportsSymlinks (funcs demo_data_handle)"
  by (simp_all add: demo_data_handle_def PHYSFS_Archiver_DIR_def)

lemma demo_DIR_stat [simp]:
  "DIR_stat demo_platform ''/data/'' name err = demo_stat (''/data/'' @ name) False err"
  by (simp add: DIR_stat_def cvtToDependent_def)

lemma demo_verifyPath_foo:
  "verifyPath demo_platform False demo_data_handle ''foo'' False None = (True, ''foo'', None)"
  by (simp add: verifyPath_def verifyPath_mountPoint_def verifyPath_loop.simps demo_stat_def
      demo_files_def)

lemma demo_verifyPath_root:
  "verifyPath demo_platform False demo_data_handle [] False None = (True, [], None)"
  by (simp add: verifyPath_def)

lemma demo_openRead_eval:
  "PHYSFS_openRead demo_platform (Some ''foo'') demo_mounted
     = (Some demo_foo_handle, demo_mounted\<lparr>openReadList := [demo_foo_handle], next_ptr := 3\<rparr>)"
  by (simp add: PHYSFS_openRead_def sanitizePlatformIndependentPath_def demo_mounted_eval
      demo_init_def demo_verifyPath_foo DIR_openRead_def DIR_doOpen_def cvtToDependent_def
      PHYSFS_createNativeIo_def demo_open_def demo_files_def demo_foo_handle_def Let_def)

lemma demo_opened_eval:
  "demo_opened = demo_mounted\<lparr>openReadList := [demo_foo_handle], next_ptr := 3\<rparr>"
  by (simp add: demo_opened_def demo_openRead_eval)

lemma demo_enumerateFiles_eval:
  "PHYSFS_enumerateFiles demo_platform (Some ''/'') demo_mounted
     = (Some [''bar'', ''baz'', ''foo''], demo_mounted)"
  by (simp add: PHYSFS_enumerateFiles_def PHYSFS_enumerate_def sanitizePlatformIndependentPath_def
      demo_mounted_eval demo_init_def enumerate_handle_def partOfMountPoint_def
      demo_verifyPath_root demo_stat_def archiver_enumerate_def DIR_enumerate_entries_def
      cvtToDependent_def enumCallbackFilterSymLinks_def demo_files_def
      enumFilesCallback_def locateInStringList_def locateInStringList_loop.simps
      u32_def sizeof_ptr_def Let_def)

lemma demo_link_handle_simps [simp]:
  "mountPoint demo_link_handle = None"
  "opaque demo_link_handle = ()"
  "stat (funcs demo_link_handle) = demo_link_stat"
  by (simp_all add: demo_link_handle_def)

subsection \<open>Claim C1: what the sanitizer rejects\<close>

text \<open>
  C1 says that \<^verbatim>\<open>sanitizePlatformIndependentPath\<close> rejects a path exactly when it holds a
  colon, a backslash or a segment equal to \<^verbatim>\<open>.\<close> or \<^verbatim>\<open>..\<close>. The loop looks at a segment only
  when it meets the slash that ends it, so the last segment of a path that does not end in
  a slash is never looked at: the path \<^verbatim>\<open>a/..\<close> holds the segment \<^verbatim>\<open>..\<close>, is accepted, and
  comes out unchanged.
\<close>

theorem sanitize_accepts_trailing_dotdot:
  "sanitizePlatformIndependentPath ''a/..'' = Some ''a/..''"
  by (simp add: sanitizePlatformIndependentPath_def)

subsection \<open>The paths the sanitizer rejects\<close>

text \<open>
  \<^verbatim>\<open>sanitizePlatformIndependentPath\<close> returns 0 exactly on the paths of \<open>rejected_path\<close>:
  the loop tests a segment when it reads the slash after it, and reads every character of
  the path unless it has rejected it before.
\<close>

lemma split_slash_nonempty [simp]: "split_slash s \<noteq> []"
  by (induction s) (auto split: list.splits)





subsection \<open>Claim C10: enumerating and opening a path the sanitizer refuses\<close>




subsection \<open>Buffered handles keep their invariants\<close>

lemma tell_exact:
  assumes "handle_ok fh"
  shows "PHYSFS_tell fh = tell_formula fh"
proof -
  let ?t = "io_tell (io fh) (io_opaque (io fh))"
  from assms have b: "bufpos fh \<le> buffill fh" "buffill fh \<le> bufsize fh" "bufsize fh < 2 ^ 63"
    and t: "- 1 \<le> ?t" "?t + int (bufsize fh) < 2 ^ 63"
    by (auto simp: handle_ok_def)
  from t have st: "s64 ?t = ?t" by (intro s64_id) auto
  have "s64 (?t - int (buffill fh) + int (bufpos fh)) = ?t - int (buffill fh) + int (bufpos fh)"
    using b t by (intro s64_id) auto
  moreover have "s64 (?t + int (buffill fh)) = ?t + int (buffill fh)"
    using b t by (intro s64_id) auto
  ultimately show ?thesis
    by (simp add: PHYSFS_tell_def tell_formula_def st)
qed

lemma handle_ok_opaque [simp]:
  "handle_ok (fh\<lparr>io := (io fh)\<lparr>io_opaque := opq\<rparr>\<rparr>) = handle_ok fh"
  by (simp add: handle_ok_def)

lemma handle_ok_buffer [simp]: "handle_ok (fh\<lparr>buffer := b\<rparr>) = handle_ok fh"
  by (simp add: handle_ok_def)

lemma handle_ok_reset [simp]:
  "handle_ok fh \<Longrightarrow> handle_ok (fh\<lparr>bufpos := 0, buffill := 0\<rparr>)"
  "handle_ok fh \<Longrightarrow> handle_ok (fh\<lparr>buffill := 0, bufpos := 0\<rparr>)"
  by (simp_all add: handle_ok_def)

lemma flush_ok:
  assumes "handle_ok fh" and "PHYSFS_flush fh err = (r, fh', err')"
  shows "handle_ok fh'"
  using assms
  by (auto simp: PHYSFS_flush_def Let_def split: if_splits prod.splits)

lemma avail_ok: "handle_ok fh \<Longrightarrow> avail fh = buffill fh - bufpos fh"
  by (auto simp: handle_ok_def avail_def u64_def)

lemma doBufferedRead_loop_ok:
  assumes "handle_ok fh" and "doBufferedRead_loop fh out len retval err = (r, out', fh', err')"
  shows "handle_ok fh'"
  using assms
proof (induction fh out len retval err rule: doBufferedRead_loop.induct)
  case (1 fh out len retval err)
  show ?case
  proof (cases "len > 0")
    case False
    with 1 show ?thesis by (simp add: doBufferedRead_loop.simps)
  next
    case len: True
    show ?thesis
    proof (cases "avail fh > 0")
      case True
      define cpy where "cpy = (if len < avail fh then len else avail fh)"
      have c: "cpy \<le> buffill fh - bufpos fh"
        using "1.prems"(1) by (simp add: cpy_def avail_ok)
      have bp: "nat (u64 (int (bufpos fh) + int cpy)) = bufpos fh + cpy"
        using "1.prems"(1) c True
        by (subst u64_id) (auto simp: handle_ok_def avail_ok)
      have ok: "handle_ok (fh\<lparr>bufpos := nat (u64 (int (bufpos fh) + int cpy))\<rparr>)"
        using "1.prems"(1) c True unfolding bp by (auto simp: handle_ok_def avail_ok)
      from "1.prems"(2) len True
      have "doBufferedRead_loop (fh\<lparr>bufpos := nat (u64 (int (bufpos fh) + int cpy))\<rparr>)
              (out @ buffer_bytes fh (bufpos fh) cpy) (len - cpy) (s64 (retval + int cpy)) err
            = (r, out', fh', err')"
        by (subst (asm) doBufferedRead_loop.simps) (simp add: Let_def cpy_def)
      with "1.IH"(1) [OF len True cpy_def ok] show ?thesis by simp
    next
      case False
      obtain rc0 bytes opq err1 where
        rd: "io_read (io fh) (io_opaque (io fh)) (bufsize fh) err = (rc0, bytes, opq, err1)"
        by (cases "io_read (io fh) (io_opaque (io fh)) (bufsize fh) err") auto
      define fh1 where "fh1 = fh\<lparr>io := (io fh)\<lparr>io_opaque := opq\<rparr>,
                               buffer := map_option (\<lambda>b. store_bytes b 0 bytes) (buffer fh),
                               bufpos := 0\<rparr>"
      from "1.prems"(1)
      have "s64 (fst (io_read (io fh) (io_opaque (io fh)) (bufsize fh) err)) \<le> int (bufsize fh)"
        unfolding handle_ok_def by blast
      then have le: "s64 rc0 \<le> int (bufsize fh)" by (simp add: rd)
      show ?thesis
      proof (cases "s64 rc0 > 0")
        case True
        then have u: "nat (u64 (s64 rc0)) = nat (s64 rc0)"
          using le "1.prems"(1) by (subst u64_id) (auto simp: handle_ok_def)
        have ok: "handle_ok (fh1\<lparr>buffill := nat (u64 (s64 rc0))\<rparr>)"
          using "1.prems"(1) le True unfolding u by (auto simp: handle_ok_def fh1_def)
        from "1.prems"(2) len False rd True
        have "doBufferedRead_loop (fh1\<lparr>buffill := nat (u64 (s64 rc0))\<rparr>) out len retval err1
                = (r, out', fh', err')"
          by (subst (asm) doBufferedRead_loop.simps) (simp add: Let_def fh1_def)
        with "1.IH"(2) [OF len False rd [symmetric] refl refl refl fh1_def True ok]
        show ?thesis by simp
      next
        case F: False
        from "1.prems"(2) len False rd F
        have "fh' = fh1\<lparr>buffill := 0\<rparr>"
          by (subst (asm) doBufferedRead_loop.simps) (auto simp: Let_def fh1_def)
        with "1.prems"(1) show ?thesis by (auto simp: handle_ok_def fh1_def)
      qed
    qed
  qed
qed

lemma readBytes_ok:
  assumes "handle_ok fh" and "PHYSFS_readBytes plat fh len err = (r, out, fh', err')"
  shows "handle_ok fh'"
  using assms
  by (auto simp: PHYSFS_readBytes_def doBufferedRead_def
      dest: doBufferedRead_loop_ok split: if_splits prod.splits)

lemma doBufferedWrite_ok:
  assumes "handle_ok fh" and "length data \<le> maxlen"
    and "doBufferedWrite fh data err = (r, fh', err')"
  shows "handle_ok fh'"
proof (cases "u64 (int (buffill fh) + int (length data)) < int (bufsize fh)")
  case True
  from assms(1,2) have "int (buffill fh) + int (length data) < 2 ^ 64"
    by (auto simp: handle_ok_def maxlen_def)
  then have u: "u64 (int (buffill fh) + int (length data)) = int (buffill fh) + int (length data)"
    by (intro u64_id) auto
  from assms(3) True
  have "fh' = fh\<lparr>buffer := map_option (\<lambda>b. store_bytes b (buffill fh) data) (buffer fh),
                 buffill := nat (u64 (int (buffill fh) + int (length data)))\<rparr>"
    by (auto simp: doBufferedWrite_def Let_def)
  with assms(1) True show ?thesis
    unfolding u by (auto simp: handle_ok_def)
next
  case False
  with assms(1,3) show ?thesis
    by (auto simp: doBufferedWrite_def Let_def dest: flush_ok split: prod.splits bool.splits)
qed

lemma writeBytes_ok:
  assumes "handle_ok fh" and "PHYSFS_writeBytes plat fh data err = (r, fh', err')"
  shows "handle_ok fh'"
  using assms
  by (auto simp: PHYSFS_writeBytes_def not_less dest: doBufferedWrite_ok
      split: if_splits prod.splits)

lemma seek_ok:
  assumes "handle_ok fh" and "PHYSFS_seek fh pos err = (r, fh', err')"
  shows "handle_ok fh'"
proof -
  obtain r1 fh1 err1 where fl: "PHYSFS_flush fh err = (r1, fh1, err1)"
    by (cases "PHYSFS_flush fh err") auto
  from flush_ok [OF assms(1) fl] have ok1: "handle_ok fh1" .
  show ?thesis
  proof (cases r1)
    case False
    with assms(2) fl ok1 show ?thesis by (simp add: PHYSFS_seek_def)
  next
    case True
    define offset where "offset = s64 (int pos - PHYSFS_tell fh1)"
    have ob: "- (2 ^ 63) \<le> offset" "offset < 2 ^ 63"
      by (simp_all add: offset_def s64_def)
    from ok1 have b: "bufpos fh1 \<le> buffill fh1" "buffill fh1 \<le> bufsize fh1" "bufsize fh1 < 2 ^ 63"
      by (auto simp: handle_ok_def)
    show ?thesis
    proof (cases "buffer fh1 \<noteq> None \<and> forReading fh1 \<and>
              ((offset \<ge> 0 \<and> u64 offset \<le> u64 (int (buffill fh1) - int (bufpos fh1))) \<or>
               (offset < 0 \<and> u64 (- offset) \<le> int (bufpos fh1)))")
      case inb: True
      have sb: "s64 (int (bufpos fh1)) = int (bufpos fh1)"
        using b by (intro s64_id) auto
      have ub: "u64 (int (buffill fh1) - int (bufpos fh1)) = int (buffill fh1) - int (bufpos fh1)"
        using b by (intro u64_id) auto
      have rng: "0 \<le> int (bufpos fh1) + offset \<and> int (bufpos fh1) + offset \<le> int (buffill fh1)"
      proof (cases "offset \<ge> 0")
        case True
        then have "u64 offset = offset" using ob by (intro u64_id) auto
        with inb True ub show ?thesis by auto
      next
        case False
        then have "u64 (- offset) = - offset" using ob by (intro u64_id) auto
        with inb False b show ?thesis by auto
      qed
      then have "u64 (int (bufpos fh1) + offset) = int (bufpos fh1) + offset"
        using b by (intro u64_id) auto
      moreover from assms(2) fl True inb
      have "fh' = fh1\<lparr>bufpos := nat (u64 (s64 (int (bufpos fh1)) + offset))\<rparr>"
        by (auto simp: PHYSFS_seek_def Let_def offset_def)
      ultimately show ?thesis
        using ok1 rng by (auto simp: handle_ok_def sb)
    next
      case False
      with assms(2) fl True ok1 show ?thesis
        by (auto simp: PHYSFS_seek_def Let_def offset_def handle_ok_def split: prod.splits)
    qed
  qed
qed

lemma demo_buffered_handle_ok: "handle_ok demo_buffered_handle"
proof -
  have "s64 (fst (demo_read opq len e)) \<le> int len" for opq len e
  proof -
    obtain content pos where opq: "opq = (content, pos)" by (cases opq)
    have "s64 (int (length (take len (drop pos content))))
            \<le> int (length (take len (drop pos content)))"
      by (rule s64_le_self) simp
    also have "\<dots> \<le> int len" by simp
    finally show ?thesis by (simp add: demo_read_def opq Let_def)
  qed
  then show ?thesis
    by (simp add: handle_ok_def demo_buffered_handle_def nativeIoInterface_def demo_platform_def)
qed

subsection \<open>Claim C2: the position reported by \<^verbatim>\<open>PHYSFS_tell\<close>\<close>

text \<open>
  C2: for every open file handle, after every successful read, write, seek or flush,
  \<^verbatim>\<open>PHYSFS_tell\<close> returns \<^verbatim>\<open>io.tell() - buffill + bufpos\<close> when the handle was opened for
  reading and \<^verbatim>\<open>io.tell() + buffill\<close> when it was opened for writing or appending. The
  theorem takes a handle whose buffer fields are consistent (\<open>handle_ok\<close>) and shows, for
  each of \<^verbatim>\<open>PHYSFS_readBytes\<close>, \<^verbatim>\<open>PHYSFS_read\<close>, \<^verbatim>\<open>PHYSFS_writeBytes\<close>, \<^verbatim>\<open>PHYSFS_write\<close>,
  \<^verbatim>\<open>PHYSFS_seek\<close> and \<^verbatim>\<open>PHYSFS_flush\<close>, successful or not, that the handle it leaves is
  consistent again and that \<^verbatim>\<open>PHYSFS_tell\<close> on it is that sum as an integer: the 64-bit
  arithmetic of the source does not wrap.
\<close>

theorem tell_invariant_after_operations:
  assumes "handle_ok fh"
  shows "(case PHYSFS_readBytes plat fh len err of
            (rc, out, fh', err') \<Rightarrow> handle_ok fh' \<and> PHYSFS_tell fh' = tell_formula fh')
       \<and> (case PHYSFS_read plat fh size' count' err of
            (rc, out, fh', err') \<Rightarrow> handle_ok fh' \<and> PHYSFS_tell fh' = tell_formula fh')
       \<and> (case PHYSFS_writeBytes plat fh data err of
            (rc, fh', err') \<Rightarrow> handle_ok fh' \<and> PHYSFS_tell fh' = tell_formula fh')
       \<and> (case PHYSFS_write plat fh data size' count' err of
            (rc, fh', err') \<Rightarrow> handle_ok fh' \<and> PHYSFS_tell fh' = tell_formula fh')
       \<and> (case PHYSFS_seek fh pos err of
            (ok, fh', err') \<Rightarrow> handle_ok fh' \<and> PHYSFS_tell fh' = tell_formula fh')
       \<and> (case PHYSFS_flush fh err of
            (ok, fh', err') \<Rightarrow> handle_ok fh' \<and> PHYSFS_tell fh' = tell_formula fh')"
  using assms
  by (auto simp: PHYSFS_read_def PHYSFS_write_def split: prod.splits
      dest: readBytes_ok writeBytes_ok seek_ok flush_ok intro: tell_exact)

theorem tell_invariant_after_operations_witness:
  "handle_ok demo_buffered_handle
   \<and> PHYSFS_tell demo_buffered_handle = 5
   \<and> (case PHYSFS_readBytes demo_platform demo_buffered_handle 3 None of
        (rc, out, fh', err') \<Rightarrow> handle_ok fh' \<and> PHYSFS_tell fh' = tell_formula fh')
   \<and> (case PHYSFS_seek demo_buffered_handle 2 None of
        (ok, fh', err') \<Rightarrow> handle_ok fh' \<and> PHYSFS_tell fh' = tell_formula fh')
   \<and> (case PHYSFS_flush demo_buffered_handle None of
        (ok, fh', err') \<Rightarrow> handle_ok fh' \<and> PHYSFS_tell fh' = tell_formula fh')"
proof -
  have t: "PHYSFS_tell demo_buffered_handle = 5"
    by (simp add: PHYSFS_tell_def demo_buffered_handle_def nativeIoInterface_def
        demo_platform_def s64_def)
  from tell_invariant_after_operations [OF demo_buffered_handle_ok,
      where plat = demo_platform and len = 3 and err = None and pos = 2]
    demo_buffered_handle_ok t
  show ?thesis by simp
qed

subsection \<open>Claim C3: what \<^verbatim>\<open>PHYSFS_flush\<close> does with a short write\<close>

text \<open>
  C3 says that \<^verbatim>\<open>PHYSFS_flush\<close> succeeds only when the stream takes all the pending bytes,
  and that a short write makes it fail with the buffer left as it was. The source tests
  \<^verbatim>\<open>rc <= 0\<close> and nothing else. C3 as amended: on a handle open for writing with pending
  bytes, \<^verbatim>\<open>PHYSFS_flush\<close> hands \<open>buffer[bufpos..buffill)\<close> to the stream's \<^verbatim>\<open>write\<close>; whenever
  that returns a positive count, a short one included, the flush succeeds and sets
  \<^verbatim>\<open>bufpos\<close> and \<^verbatim>\<open>buffill\<close> to zero; when it returns zero or less the flush fails and
  leaves buffer, \<^verbatim>\<open>bufsize\<close>, \<^verbatim>\<open>buffill\<close> and \<^verbatim>\<open>bufpos\<close> as they were. On a handle open for
  reading, and on one with an empty buffer, the flush succeeds and changes nothing.
\<close>

theorem flush_outcome:
  "(forReading fh \<or> bufpos fh = buffill fh \<longrightarrow> PHYSFS_flush fh err = (True, fh, err))
   \<and> (\<not> forReading fh \<and> bufpos fh < buffill fh \<and> buffill fh < 2 ^ 64
        \<and> io_write (io fh) (io_opaque (io fh))
             (buffer_bytes fh (bufpos fh) (buffill fh - bufpos fh)) err = (rc, opq, err1)
      \<longrightarrow> PHYSFS_flush fh err
            = (if 0 < s64 rc
               then (True, fh\<lparr>io := (io fh)\<lparr>io_opaque := opq\<rparr>, bufpos := 0, buffill := 0\<rparr>, err1)
               else (False, fh\<lparr>io := (io fh)\<lparr>io_opaque := opq\<rparr>\<rparr>, err1)))"
proof (intro conjI impI)
  assume "forReading fh \<or> bufpos fh = buffill fh"
  then show "PHYSFS_flush fh err = (True, fh, err)"
    by (simp add: PHYSFS_flush_def)
next
  assume a: "\<not> forReading fh \<and> bufpos fh < buffill fh \<and> buffill fh < 2 ^ 64
        \<and> io_write (io fh) (io_opaque (io fh))
             (buffer_bytes fh (bufpos fh) (buffill fh - bufpos fh)) err = (rc, opq, err1)"
  then have "u64 (int (buffill fh) - int (bufpos fh)) = int (buffill fh) - int (bufpos fh)"
    by (intro u64_id) auto
  then have "nat (u64 (int (buffill fh) - int (bufpos fh))) = buffill fh - bufpos fh"
    by simp
  with a show "PHYSFS_flush fh err
            = (if 0 < s64 rc
               then (True, fh\<lparr>io := (io fh)\<lparr>io_opaque := opq\<rparr>, bufpos := 0, buffill := 0\<rparr>, err1)
               else (False, fh\<lparr>io := (io fh)\<lparr>io_opaque := opq\<rparr>\<rparr>, err1))"
    by (simp add: PHYSFS_flush_def Let_def)
qed

theorem flush_outcome_witness:
  "PHYSFS_flush demo_buffered_handle None
     = (True, demo_buffered_handle, None)
   \<and> PHYSFS_flush
        (demo_pending_handle\<lparr>io := (io demo_pending_handle)\<lparr>io_write := (\<lambda>h b e. (0, h, Some PHYSFS_ERR_IO))\<rparr>\<rparr>)
        None
     = (False,
        demo_pending_handle\<lparr>io := (io demo_pending_handle)\<lparr>io_write := (\<lambda>h b e. (0, h, Some PHYSFS_ERR_IO))\<rparr>\<rparr>,
        Some PHYSFS_ERR_IO)"
proof -
  let ?fh = "demo_pending_handle\<lparr>io := (io demo_pending_handle)\<lparr>io_write := (\<lambda>h b e. (0, h, Some PHYSFS_ERR_IO))\<rparr>\<rparr>"
  have 1: "forReading demo_buffered_handle \<or> bufpos demo_buffered_handle = buffill demo_buffered_handle"
    by (simp add: demo_buffered_handle_def)
  have 2: "\<not> forReading ?fh \<and> bufpos ?fh < buffill ?fh \<and> buffill ?fh < 2 ^ 64
        \<and> io_write (io ?fh) (io_opaque (io ?fh))
             (buffer_bytes ?fh (bufpos ?fh) (buffill ?fh - bufpos ?fh)) None
           = (0, ([], 0), Some PHYSFS_ERR_IO)"
    by (simp add: demo_pending_handle_def nativeIoInterface_def)
  have 3: "\<not> 0 < s64 0" by (simp add: s64_def)
  have 4: "?fh\<lparr>io := (io ?fh)\<lparr>io_opaque := ([], 0)\<rparr>\<rparr> = ?fh"
    by (simp add: demo_pending_handle_def nativeIoInterface_def)
  from flush_outcome [of demo_buffered_handle None] 1
  have a: "PHYSFS_flush demo_buffered_handle None
     = (True, demo_buffered_handle, None)" by blast
  from flush_outcome [of ?fh None 0 "([], 0)" "Some PHYSFS_ERR_IO"] 2 3
  have "PHYSFS_flush ?fh None
          = (False, ?fh\<lparr>io := (io ?fh)\<lparr>io_opaque := ([], 0)\<rparr>\<rparr>, Some PHYSFS_ERR_IO)"
    by simp
  with a 4 show ?thesis by simp
qed

theorem flush_short_write_counterexample:
  "io_write (io demo_pending_handle) (io_opaque (io demo_pending_handle)) ''abcd'' None
     = (2, (''ab'', 2), None)
   \<and> PHYSFS_flush demo_pending_handle None
     = (True,
        demo_pending_handle\<lparr>io := (io demo_pending_handle)\<lparr>io_opaque := (''ab'', 2)\<rparr>,
                             bufpos := 0, buffill := 0\<rparr>,
        None)"
  by (simp add: PHYSFS_flush_def demo_pending_handle_def nativeIoInterface_def
      demo_short_write_def demo_write_def buffer_bytes_def u64_def s64_def)

subsection \<open>Claim C5: seeking inside the read buffer\<close>

text \<open>
  C5: on a handle open for reading with a buffer set, \<^verbatim>\<open>PHYSFS_seek(pos)\<close> with \<open>pos\<close>
  inside \<open>[tell - bufpos, tell - bufpos + buffill]\<close> changes \<^verbatim>\<open>bufpos\<close> only and returns
  success: the stream (and so \<^verbatim>\<open>io.tell()\<close>), the buffer contents, \<^verbatim>\<open>buffill\<close> and
  \<^verbatim>\<open>bufsize\<close> stay as they were; for \<open>pos\<close> outside that range the buffer is discarded
  (\<^verbatim>\<open>buffill = bufpos = 0\<close>) and the stream is asked to seek to \<open>pos\<close>, whose answer is the
  result. The handle is one that buffered reading produces: \<^verbatim>\<open>bufpos\<close> is at most
  \<^verbatim>\<open>buffill\<close>, and the stream stands at or after the end of what was read into the buffer.
\<close>

theorem seek_within_buffer:
  assumes rd: "forReading fh" and buf: "buffer fh \<noteq> None"
    and wf: "bufpos fh \<le> buffill fh" "buffill fh < 2 ^ 63"
    and tl: "int (buffill fh) \<le> io_tell (io fh) (io_opaque (io fh))"
            "io_tell (io fh) (io_opaque (io fh)) < 2 ^ 63"
    and p: "pos < 2 ^ 64"
  shows "(PHYSFS_tell fh - int (bufpos fh) \<le> int pos
            \<and> int pos \<le> PHYSFS_tell fh - int (bufpos fh) + int (buffill fh)
          \<longrightarrow> PHYSFS_seek fh pos err
                = (True, fh\<lparr>bufpos := nat (int pos - (PHYSFS_tell fh - int (bufpos fh)))\<rparr>, err))
       \<and> (\<not> (PHYSFS_tell fh - int (bufpos fh) \<le> int pos
               \<and> int pos \<le> PHYSFS_tell fh - int (bufpos fh) + int (buffill fh))
          \<longrightarrow> PHYSFS_seek fh pos err
                = (case io_seek (io fh) (io_opaque (io fh)) pos err of
                     (ok, opq, err1) \<Rightarrow>
                       (ok, fh\<lparr>buffill := 0, bufpos := 0, io := (io fh)\<lparr>io_opaque := opq\<rparr>\<rparr>,
                        err1)))"
proof -
  let ?t = "io_tell (io fh) (io_opaque (io fh))"
  define T where "T = ?t - int (buffill fh) + int (bufpos fh)"
  have st: "s64 ?t = ?t" using tl wf by (intro s64_id) auto
  have tell: "PHYSFS_tell fh = T"
    using rd tl wf unfolding PHYSFS_tell_def Let_def st T_def
    by (simp add: s64_id)
  have Tb: "0 \<le> T" "T < 2 ^ 63" using tl wf by (auto simp: T_def)
  define offset where "offset = s64 (int pos - T)"
  have fl: "PHYSFS_flush fh err = (True, fh, err)"
    using rd by (simp add: PHYSFS_flush_def)
  have ub: "u64 (int (buffill fh) - int (bufpos fh)) = int (buffill fh) - int (bufpos fh)"
    using wf by (intro u64_id) auto
  have sb: "s64 (int (bufpos fh)) = int (bufpos fh)"
    using wf by (intro s64_id) auto
  have cond: "((offset \<ge> 0 \<and> u64 offset \<le> u64 (int (buffill fh) - int (bufpos fh))) \<or>
               (offset < 0 \<and> u64 (- offset) \<le> int (bufpos fh)))
              \<longleftrightarrow> (T - int (bufpos fh) \<le> int pos
                    \<and> int pos \<le> T - int (bufpos fh) + int (buffill fh))"
  proof (cases "int pos - T < 2 ^ 63")
    case True
    then have o: "offset = int pos - T"
      unfolding offset_def using Tb by (intro s64_id) auto
    show ?thesis
    proof (cases "offset \<ge> 0")
      case True
      then have "u64 offset = offset" using o \<open>int pos - T < 2 ^ 63\<close> by (intro u64_id) auto
      with True o ub wf show ?thesis by auto
    next
      case False
      then have "u64 (- offset) = - offset" using o Tb by (intro u64_id) auto
      with False o wf show ?thesis by auto
    qed
  next
    case False
    then have o: "offset = int pos - T - 2 ^ 64"
      unfolding offset_def using Tb p by (intro s64_high) auto
    then have neg: "offset < 0" using p Tb by auto
    have "u64 (- offset) = - offset" using o False p Tb by (intro u64_id) auto
    moreover have "\<not> - offset \<le> int (bufpos fh)"
      using o p tl wf by (auto simp: T_def)
    moreover have "\<not> int pos \<le> T - int (bufpos fh) + int (buffill fh)"
      using False wf Tb by auto
    ultimately show ?thesis using neg by auto
  qed
  show ?thesis
  proof (intro conjI impI)
    assume a: "PHYSFS_tell fh - int (bufpos fh) \<le> int pos
            \<and> int pos \<le> PHYSFS_tell fh - int (bufpos fh) + int (buffill fh)"
    then have o: "offset = int pos - T"
      unfolding offset_def tell using Tb wf by (intro s64_id) auto
    have "u64 (int (bufpos fh) + offset) = int pos - (T - int (bufpos fh))"
      using a o wf unfolding tell by (subst u64_id) auto
    with a cond rd buf show "PHYSFS_seek fh pos err
                = (True, fh\<lparr>bufpos := nat (int pos - (PHYSFS_tell fh - int (bufpos fh)))\<rparr>, err)"
      by (simp add: PHYSFS_seek_def fl tell Let_def offset_def [symmetric] sb)
  next
    assume "\<not> (PHYSFS_tell fh - int (bufpos fh) \<le> int pos
               \<and> int pos \<le> PHYSFS_tell fh - int (bufpos fh) + int (buffill fh))"
    with cond have nc: "\<not> ((offset \<ge> 0 \<and> u64 offset \<le> u64 (int (buffill fh) - int (bufpos fh))) \<or>
               (offset < 0 \<and> u64 (- offset) \<le> int (bufpos fh)))"
      by (simp add: tell)
    have "PHYSFS_seek fh pos err =
            (let offset = s64 (int pos - PHYSFS_tell fh) in
             if buffer fh \<noteq> None \<and> forReading fh \<and>
                ((offset \<ge> 0 \<and> u64 offset \<le> u64 (int (buffill fh) - int (bufpos fh))) \<or>
                 (offset < 0 \<and> u64 (- offset) \<le> int (bufpos fh)))
             then (True, fh\<lparr>bufpos := nat (u64 (s64 (int (bufpos fh)) + offset))\<rparr>, err)
             else
               (case io_seek (io fh) (io_opaque (io fh)) pos err of
                  (ok, opq, err1) \<Rightarrow>
                    (ok, fh\<lparr>buffill := 0, bufpos := 0, io := (io fh)\<lparr>io_opaque := opq\<rparr>\<rparr>,
                     err1)))"
      by (simp add: PHYSFS_seek_def fl)
    also have "\<dots> = (case io_seek (io fh) (io_opaque (io fh)) pos err of
                  (ok, opq, err1) \<Rightarrow>
                    (ok, fh\<lparr>buffill := 0, bufpos := 0, io := (io fh)\<lparr>io_opaque := opq\<rparr>\<rparr>,
                     err1))"
      unfolding Let_def tell offset_def [symmetric] using nc by (simp only: if_False simp_thms)
    finally show "PHYSFS_seek fh pos err
                = (case io_seek (io fh) (io_opaque (io fh)) pos err of
                     (ok, opq, err1) \<Rightarrow>
                       (ok, fh\<lparr>buffill := 0, bufpos := 0, io := (io fh)\<lparr>io_opaque := opq\<rparr>\<rparr>,
                        err1))" .
  qed
qed

theorem seek_within_buffer_witness:
  "PHYSFS_tell demo_buffered_handle = 5
   \<and> PHYSFS_seek demo_buffered_handle 4 None
       = (True, demo_buffered_handle\<lparr>bufpos := 0\<rparr>, None)
   \<and> PHYSFS_seek demo_buffered_handle 8 None
       = (True, demo_buffered_handle\<lparr>bufpos := 4\<rparr>, None)
   \<and> PHYSFS_seek demo_buffered_handle 9 None
       = (True,
          demo_buffered_handle\<lparr>buffill := 0, bufpos := 0,
            io := (io demo_buffered_handle)\<lparr>io_opaque := (''hello world'', 9)\<rparr>\<rparr>,
          None)"
proof -
  have t: "PHYSFS_tell demo_buffered_handle = 5"
    by (simp add: PHYSFS_tell_def demo_buffered_handle_def nativeIoInterface_def
        demo_platform_def s64_def)
  have h: "forReading demo_buffered_handle" "buffer demo_buffered_handle \<noteq> None"
    "bufpos demo_buffered_handle \<le> buffill demo_buffered_handle"
    "buffill demo_buffered_handle < 2 ^ 63"
    "int (buffill demo_buffered_handle)
       \<le> io_tell (io demo_buffered_handle) (io_opaque (io demo_buffered_handle))"
    "io_tell (io demo_buffered_handle) (io_opaque (io demo_buffered_handle)) < 2 ^ 63"
    by (simp_all add: demo_buffered_handle_def nativeIoInterface_def demo_platform_def)
  have f: "bufpos demo_buffered_handle = 1" "buffill demo_buffered_handle = 4"
    "io_seek (io demo_buffered_handle) (io_opaque (io demo_buffered_handle)) 9 None
       = (True, (''hello world'', 9), None)"
    by (simp_all add: demo_buffered_handle_def nativeIoInterface_def demo_platform_def
        demo_seek_def)
  from seek_within_buffer [OF h, of 4 None] t f
  have a: "PHYSFS_seek demo_buffered_handle 4 None
       = (True, demo_buffered_handle\<lparr>bufpos := 0\<rparr>, None)" by simp
  from seek_within_buffer [OF h, of 8 None] t f
  have b: "PHYSFS_seek demo_buffered_handle 8 None
       = (True, demo_buffered_handle\<lparr>bufpos := 4\<rparr>, None)" by simp
  from seek_within_buffer [OF h, of 9 None] t f
  have c: "PHYSFS_seek demo_buffered_handle 9 None
       = (True,
          demo_buffered_handle\<lparr>buffill := 0, bufpos := 0,
            io := (io demo_buffered_handle)\<lparr>io_opaque := (''hello world'', 9)\<rparr>\<rparr>,
          None)" by simp
  from t a b c show ?thesis by simp
qed

subsection \<open>Claim C8: mounting twice, and where a new mount goes\<close>

text \<open>Opening an archive allocates handles; it never touches the search path.\<close>

lemma tryOpenDir_frame:
  assumes "tryOpenDir plat io0 fns d fw st = (r, c, io1, st1)"
  shows "searchPath st1 = searchPath st \<and> openReadList st1 = openReadList st"
  using assms
  by (auto simp: tryOpenDir_def split: option.splits prod.splits bool.splits if_splits)

lemma openDirectory_fail_frame:
  "openDirectory_fail plat c st = (r, st1) \<Longrightarrow> r = None \<and> searchPath st1 = searchPath st"
  by (auto simp: openDirectory_fail_def Let_def)

lemma openDirectory_native_frame:
  "openDirectory_native plat d fw c st = (r, st1) \<Longrightarrow> r = None \<and> searchPath st1 = searchPath st"
  by (auto simp: openDirectory_native_def dest!: openDirectory_fail_frame
      split: option.splits prod.splits)

lemma openDirectory_frame:
  assumes "openDirectory plat io0 d fw st = (r, st1)"
  shows "searchPath st1 = searchPath st"
  using assms
  by (auto simp: openDirectory_def
      dest!: openDirectory_fail_frame openDirectory_native_frame tryOpenDir_frame
      split: option.splits prod.splits bool.splits if_splits)

lemma createDirHandle_frame:
  assumes "createDirHandle plat io0 newDir mp fw st = (Some dh, st1)"
  shows "searchPath st1 = searchPath st \<and> dirName dh = Some newDir"
  using assms
  by (auto simp: createDirHandle_def badDirHandle_def Let_def
      dest!: openDirectory_frame
      split: option.splits prod.splits sum.splits if_splits)

text \<open>
  C8: \<^verbatim>\<open>doMount\<close> of an \<^verbatim>\<open>fname\<close> that is already the \<^verbatim>\<open>dirName\<close> of a handle of the search
  path returns success and leaves the whole state, the search path included, as it was,
  whatever \<^verbatim>\<open>mountPoint\<close>, \<^verbatim>\<open>appendToPath\<close> and \<^verbatim>\<open>io\<close> are; a successful mount of any other
  \<^verbatim>\<open>fname\<close> leaves the old handles in their order and puts the new handle, whose
  \<^verbatim>\<open>dirName\<close> is \<^verbatim>\<open>fname\<close>, last when \<^verbatim>\<open>appendToPath\<close> is nonzero and first when it is zero.
\<close>

theorem doMount_duplicate_and_position:
  "(list_ex (\<lambda>i. dirName i = Some fname) (searchPath st)
      \<longrightarrow> doMount plat io0 (Some fname) mountPoint0 appendToPath st = (True, st))
   \<and> (\<not> list_ex (\<lambda>i. dirName i = Some fname) (searchPath st)
        \<and> doMount plat io0 (Some fname) mountPoint0 appendToPath st = (True, st')
      \<longrightarrow> (\<exists>dh. dirName dh = Some fname
             \<and> searchPath st' = (if appendToPath \<noteq> 0 then searchPath st @ [dh]
                                 else dh # searchPath st)))"
proof (intro conjI impI)
  assume "list_ex (\<lambda>i. dirName i = Some fname) (searchPath st)"
  then show "doMount plat io0 (Some fname) mountPoint0 appendToPath st = (True, st)"
    by (simp add: doMount_def)
next
  assume a: "\<not> list_ex (\<lambda>i. dirName i = Some fname) (searchPath st)
        \<and> doMount plat io0 (Some fname) mountPoint0 appendToPath st = (True, st')"
  then obtain dh st1 where
    c: "createDirHandle plat io0 fname
          (Some (case mountPoint0 of None \<Rightarrow> ''/'' | Some m \<Rightarrow> m)) False st = (Some dh, st1)"
    and s: "st' = (if appendToPath \<noteq> 0 then st1\<lparr>searchPath := searchPath st1 @ [dh]\<rparr>
                  else st1\<lparr>searchPath := dh # searchPath st1\<rparr>)"
    by (auto simp: doMount_def Let_def split: option.splits prod.splits if_splits)
  from createDirHandle_frame [OF c] s
  show "\<exists>dh. dirName dh = Some fname
          \<and> searchPath st' = (if appendToPath \<noteq> 0 then searchPath st @ [dh] else dh # searchPath st)"
    by auto
qed

text \<open>
  A second directory, \<^verbatim>\<open>/data/\<close>, is mounted on top of \<^verbatim>\<open>/data\<close>: once at the head of the search
  path and once at its tail. Mounting \<^verbatim>\<open>/data\<close> again changes nothing, whatever the mount
  point and the position asked for.
\<close>

theorem doMount_duplicate_and_position_witness:
  "searchPath demo_mounted = [demo_data_handle]
   \<and> doMount demo_platform None (Some ''/data'') (Some ''elsewhere'') 0 demo_mounted
       = (True, demo_mounted)
   \<and> doMount demo_platform None (Some ''/data/'') None 0 demo_mounted
       = (True,
          demo_mounted\<lparr>searchPath := [demo_data_handle\<lparr>dh_ptr := 2, dirName := Some ''/data/''\<rparr>,
                                       demo_data_handle],
                       next_ptr := 3\<rparr>)
   \<and> doMount demo_platform None (Some ''/data/'') None 1 demo_mounted
       = (True,
          demo_mounted\<lparr>searchPath := [demo_data_handle,
                                       demo_data_handle\<lparr>dh_ptr := 2, dirName := Some ''/data/''\<rparr>],
                       next_ptr := 3\<rparr>)
   \<and> (\<exists>dh. dirName dh = Some ''/data/''
         \<and> [demo_data_handle\<lparr>dh_ptr := 2, dirName := Some ''/data/''\<rparr>, demo_data_handle]
             = dh # searchPath demo_mounted)
   \<and> (\<exists>dh. dirName dh = Some ''/data/''
         \<and> [demo_data_handle, demo_data_handle\<lparr>dh_ptr := 2, dirName := Some ''/data/''\<rparr>]
             = searchPath demo_mounted @ [dh])"
proof -
  let ?new = "demo_data_handle\<lparr>dh_ptr := 2, dirName := Some ''/data/''\<rparr>"
  have sp: "searchPath demo_mounted = [demo_data_handle]"
    by (simp add: demo_mounted_eval)
  have m: "doMount demo_platform None (Some ''/data/'') None appendToPath demo_mounted
       = (True,
          demo_mounted\<lparr>searchPath := (if appendToPath \<noteq> 0 then [demo_data_handle, ?new]
                                        else [?new, demo_data_handle]),
                       next_ptr := 3\<rparr>)" for appendToPath
    by (simp add: doMount_def createDirHandle_def openDirectory_def tryOpenDir_def
        PHYSFS_Archiver_DIR_def DIR_openArchive_def demo_stat_def
        sanitizePlatformIndependentPath_def demo_mounted_eval demo_init_def demo_data_handle_def)
  from doMount_duplicate_and_position
    [of "''/data''" demo_mounted demo_platform None "Some ''elsewhere''" 0] sp
  have a: "doMount demo_platform None (Some ''/data'') (Some ''elsewhere'') 0 demo_mounted
       = (True, demo_mounted)" by simp
  from doMount_duplicate_and_position
    [of "''/data/''" demo_mounted demo_platform None None 0
       "demo_mounted\<lparr>searchPath := [?new, demo_data_handle], next_ptr := 3\<rparr>"]
    sp m [of 0]
  have b: "\<exists>dh. dirName dh = Some ''/data/''
         \<and> [?new, demo_data_handle] = dh # searchPath demo_mounted" by simp
  from doMount_duplicate_and_position
    [of "''/data/''" demo_mounted demo_platform None None 1
       "demo_mounted\<lparr>searchPath := [demo_data_handle, ?new], next_ptr := 3\<rparr>"]
    sp m [of 1]
  have c: "\<exists>dh. dirName dh = Some ''/data/''
         \<and> [demo_data_handle, ?new] = searchPath demo_mounted @ [dh]" by simp
  from sp a m [of 0] m [of 1] b c show ?thesis by simp
qed

subsection \<open>Claim C4: which archivers a mount tries\<close>






subsection \<open>Claim C6: unmounting with files still open\<close>

text \<open>
  The loop of \<^verbatim>\<open>PHYSFS_unmount\<close> stops at the first handle of the search path whose
  \<^verbatim>\<open>dirName\<close> is the string asked for; closing a file open for reading always succeeds and
  takes that file, and no other, off the open read list.
\<close>

lemma unmount_loop_first_match:
  assumes "\<forall>i\<in>set pre. dirName i \<noteq> Some d" and "dirName h = Some d"
  shows "unmount_loop plat d prev (pre @ h # post) st =
           (case freeDirHandle plat (Some h) (openReadList st) st of
              (False, st1) \<Rightarrow> (False, st1)
            | (True, st1) \<Rightarrow> (True, st1\<lparr>searchPath := prev @ pre @ post\<rparr>))"
  using assms by (induction pre arbitrary: prev) (simp_all split: prod.splits bool.splits)

lemma closeHandleInOpenList_reading:
  assumes "\<forall>fh\<in>set l. forReading fh" and "distinct (map fh_ptr l)"
  shows "closeHandleInOpenList l p err =
           (if p \<in> fh_ptr ` set l then 1 else 0, filter (\<lambda>fh. fh_ptr fh \<noteq> p) l, err)"
  using assms
proof (induction l)
  case Nil
  then show ?case by simp
next
  case (Cons a l)
  then show ?case
    by (auto simp: image_iff intro!: filter_True [symmetric])
qed

lemma PHYSFS_close_reading:
  assumes "\<forall>fh\<in>set (openReadList st). forReading fh"
    and "distinct (map fh_ptr (openReadList st))"
    and "p \<in> fh_ptr ` set (openReadList st)"
  shows "PHYSFS_close plat p st =
           (True, st\<lparr>openReadList := filter (\<lambda>fh. fh_ptr fh \<noteq> p) (openReadList st)\<rparr>)"
  using assms by (simp add: PHYSFS_close_def closeHandleInOpenList_reading)

lemma close_handles_reading:
  assumes "\<forall>fh\<in>set (openReadList st). forReading fh"
    and "distinct (map fh_ptr (openReadList st))"
    and "set ps \<subseteq> fh_ptr ` set (openReadList st)"
    and "distinct ps"
  shows "close_handles plat ps st =
           st\<lparr>openReadList := filter (\<lambda>fh. fh_ptr fh \<notin> set ps) (openReadList st)\<rparr>"
  using assms
proof (induction ps arbitrary: st)
  case Nil
  then show ?case by (simp add: close_handles_def)
next
  case (Cons p ps)
  let ?st1 = "st\<lparr>openReadList := filter (\<lambda>fh. fh_ptr fh \<noteq> p) (openReadList st)\<rparr>"
  from Cons.prems have c: "PHYSFS_close plat p st = (True, ?st1)"
    by (intro PHYSFS_close_reading) auto
  have "close_handles plat ps ?st1 =
          ?st1\<lparr>openReadList := filter (\<lambda>fh. fh_ptr fh \<notin> set ps) (openReadList ?st1)\<rparr>"
  proof (intro Cons.IH)
    show "set ps \<subseteq> fh_ptr ` set (openReadList ?st1)"
    proof
      fix x assume x: "x \<in> set ps"
      with Cons.prems(3) obtain fh where "fh \<in> set (openReadList st)" "x = fh_ptr fh" by auto
      moreover from x Cons.prems(4) have "x \<noteq> p" by auto
      ultimately show "x \<in> fh_ptr ` set (openReadList ?st1)" by auto
    qed
  qed (use Cons.prems in \<open>auto simp: distinct_map_filter\<close>)
  moreover have "close_handles plat (p # ps) st = close_handles plat ps ?st1"
    by (simp add: close_handles_def c)
  ultimately show ?case
    by (simp add: conj_commute cong: conj_cong)
qed

text \<open>
  C6: let \<open>h\<close> be the first handle of the search path whose \<^verbatim>\<open>dirName\<close> equals \<open>d\<close> byte for
  byte. While some file of the open read list references \<open>h\<close>, \<^verbatim>\<open>PHYSFS_unmount(d)\<close> fails with
  \<^verbatim>\<open>PHYSFS_ERR_FILES_STILL_OPEN\<close> and changes nothing but the thread's error state, so the
  search path stays as it was. Failing with that code is the call
  \<^verbatim>\<open>PHYSFS_setErrorCode(PHYSFS_ERR_FILES_STILL_OPEN)\<close>: the code is the thread's error code
  afterwards whenever the thread has an \<^verbatim>\<open>ErrState\<close> or the allocator has room for one. Once
  every such file has been closed with \<^verbatim>\<open>PHYSFS_close\<close>, the same call succeeds: \<open>h\<close> is
  spliced out of the search path, the other handles keep their order, and the archive of
  \<open>h\<close> is closed. The open read list is as \<^verbatim>\<open>PHYSFS_openRead\<close> builds it: files open for
  reading, each with its own address.
\<close>

theorem unmount_refuses_open_files:
  assumes "searchPath st = pre @ h # post"
    and "\<forall>i\<in>set pre. dirName i \<noteq> Some d"
    and "dirName h = Some d"
    and "\<forall>fh\<in>set (openReadList st). forReading fh"
    and "distinct (map fh_ptr (openReadList st))"
  shows "(list_ex (\<lambda>fh. dirHandle fh = dh_ptr h) (openReadList st)
            \<longrightarrow> PHYSFS_unmount plat (Some d) st
                  = (False,
                     st\<lparr>errcode :=
                          PHYSFS_setErrorCode plat PHYSFS_ERR_FILES_STILL_OPEN (errcode st)\<rparr>)
                \<and> (errcode st \<noteq> None \<or> Malloc plat sizeof_ErrState
                     \<longrightarrow> PHYSFS_setErrorCode plat PHYSFS_ERR_FILES_STILL_OPEN (errcode st)
                           = Some PHYSFS_ERR_FILES_STILL_OPEN))
       \<and> (let st' = close_handles plat
                       (map fh_ptr (filter (\<lambda>fh. dirHandle fh = dh_ptr h) (openReadList st))) st
          in PHYSFS_unmount plat (Some d) st'
               = (True, st'\<lparr>closedArchives := closedArchives st' @ [opaque h],
                            searchPath := pre @ post\<rparr>))"
proof (intro conjI impI)
  assume "list_ex (\<lambda>fh. dirHandle fh = dh_ptr h) (openReadList st)"
  with assms show "PHYSFS_unmount plat (Some d) st
      = (False,
         st\<lparr>errcode := PHYSFS_setErrorCode plat PHYSFS_ERR_FILES_STILL_OPEN (errcode st)\<rparr>)"
    by (simp add: PHYSFS_unmount_def unmount_loop_first_match freeDirHandle_def)
next
  assume "errcode st \<noteq> None \<or> Malloc plat sizeof_ErrState"
  then show "PHYSFS_setErrorCode plat PHYSFS_ERR_FILES_STILL_OPEN (errcode st)
               = Some PHYSFS_ERR_FILES_STILL_OPEN"
    by (intro setErrorCode_recorded) simp_all
next
  let ?ps = "map fh_ptr (filter (\<lambda>fh. dirHandle fh = dh_ptr h) (openReadList st))"
  let ?st' = "close_handles plat ?ps st"
  have d: "distinct ?ps" using assms(5) by (simp add: distinct_map_filter)
  have "?st' = st\<lparr>openReadList := filter (\<lambda>fh. fh_ptr fh \<notin> set ?ps) (openReadList st)\<rparr>"
    using assms(4,5) d by (intro close_handles_reading) auto
  moreover have "\<not> list_ex (\<lambda>fh. dirHandle fh = dh_ptr h)
                    (filter (\<lambda>fh. fh_ptr fh \<notin> set ?ps) (openReadList st))"
    by (auto simp: list_ex_iff)
  ultimately show "let st' = ?st' in PHYSFS_unmount plat (Some d) st'
               = (True, st'\<lparr>closedArchives := closedArchives st' @ [opaque h],
                            searchPath := pre @ post\<rparr>)"
    using assms(1-3)
    by (simp add: PHYSFS_unmount_def unmount_loop_first_match freeDirHandle_def Let_def)
qed

theorem unmount_refuses_open_files_witness:
  "searchPath demo_opened = [demo_data_handle]
   \<and> openReadList demo_opened = [demo_foo_handle]
   \<and> dirHandle demo_foo_handle = dh_ptr demo_data_handle
   \<and> PHYSFS_unmount demo_platform (Some ''/data'') demo_opened
       = (False, demo_opened\<lparr>errcode := Some PHYSFS_ERR_FILES_STILL_OPEN\<rparr>)
   \<and> close_handles demo_platform [fh_ptr demo_foo_handle] demo_opened
       = demo_opened\<lparr>openReadList := []\<rparr>
   \<and> PHYSFS_unmount demo_platform (Some ''/data'')
         (close_handles demo_platform [fh_ptr demo_foo_handle] demo_opened)
       = (True, demo_opened\<lparr>openReadList := [], closedArchives := [''/data/''],
                            searchPath := []\<rparr>)"
proof -
  have sp: "searchPath demo_opened = [] @ demo_data_handle # []"
    and rl: "openReadList demo_opened = [demo_foo_handle]"
    and ca: "closedArchives demo_opened = []" "errcode demo_opened = None"
    by (simp_all add: demo_opened_eval demo_mounted_eval demo_init_def)
  have fh: "dirHandle demo_foo_handle = dh_ptr demo_data_handle" "forReading demo_foo_handle"
    by (simp_all add: demo_foo_handle_def)
  have cl: "close_handles demo_platform [fh_ptr demo_foo_handle] demo_opened
              = demo_opened\<lparr>openReadList := []\<rparr>"
    using rl ca by (simp add: close_handles_def PHYSFS_close_def fh)
  from unmount_refuses_open_files
    [of demo_opened "[]" demo_data_handle "[]" "''/data''" demo_platform]
    sp rl fh ca cl
  have "PHYSFS_unmount demo_platform (Some ''/data'') demo_opened
       = (False, demo_opened\<lparr>errcode := Some PHYSFS_ERR_FILES_STILL_OPEN\<rparr>)
   \<and> PHYSFS_unmount demo_platform (Some ''/data'')
         (close_handles demo_platform [fh_ptr demo_foo_handle] demo_opened)
       = (True, demo_opened\<lparr>openReadList := [], closedArchives := [''/data/''],
                            searchPath := []\<rparr>)"
    by (simp add: Let_def)
  with sp rl fh cl show ?thesis by simp
qed

subsection \<open>Claim C7: symbolic links on the way to a file\<close>

text \<open>What \<^verbatim>\<open>strchr(start, '/')\<close> finds, in terms of the positions of the whole path.\<close>

lemma strchr_slash_None: "strchr_slash s = None \<longleftrightarrow> CHR ''/'' \<notin> set s"
  by (induction s) (auto split: option.splits)

lemma strchr_slash_Some:
  "strchr_slash s = Some k \<longleftrightarrow> k < length s \<and> s ! k = CHR ''/'' \<and> (\<forall>j<k. s ! j \<noteq> CHR ''/'')"
proof (induction s arbitrary: k)
  case Nil
  then show ?case by simp
next
  case (Cons c s)
  show ?case
  proof (cases "c = CHR ''/''")
    case True
    then show ?thesis by (cases k) auto
  next
    case False
    show ?thesis
    proof (cases k)
      case 0
      with False show ?thesis by (auto split: option.splits)
    next
      case (Suc k')
      with False Cons.IH [of k'] show ?thesis
        by (auto simp: less_Suc_eq_0_disj nth_Cons' split: option.splits)
    qed
  qed
qed

lemma strchr_slash_drop_None:
  assumes "strchr_slash (drop start fname) = None" and "start \<le> i" and "i < length fname"
  shows "fname ! i \<noteq> CHR ''/''"
proof -
  have "drop start fname ! (i - start) \<in> set (drop start fname)"
    using assms(2,3) by (intro nth_mem) simp
  moreover have "drop start fname ! (i - start) = fname ! i"
    using assms(2,3) by simp
  ultimately show ?thesis
    using assms(1) by (auto simp: strchr_slash_None)
qed

lemma strchr_slash_drop_Some:
  assumes "strchr_slash (drop start fname) = Some k"
  shows "start + k < length fname" and "fname ! (start + k) = CHR ''/''"
    and "start \<le> i \<Longrightarrow> i < start + k \<Longrightarrow> fname ! i \<noteq> CHR ''/''"
proof -
  from assms have k: "k < length (drop start fname)" "drop start fname ! k = CHR ''/''"
    and nk: "\<forall>j<k. drop start fname ! j \<noteq> CHR ''/''"
    by (simp_all add: strchr_slash_Some)
  from k show "start + k < length fname" by simp
  with k show "fname ! (start + k) = CHR ''/''" by simp
  assume i: "start \<le> i" "i < start + k"
  then have "i - start < k" by simp
  with nk have "drop start fname ! (i - start) \<noteq> CHR ''/''" by blast
  moreover have "drop start fname ! (i - start) = fname ! i"
    using i k(1) by simp
  ultimately show "fname ! i \<noteq> CHR ''/''" by simp
qed

text \<open>
  The loop of \<^verbatim>\<open>verifyPath\<close> stats the prefixes of the path that end before a slash or at
  the end of the path, shortest first. It goes on to the next one unless the prefix is a
  symbolic link or its \<^verbatim>\<open>stat\<close> fails and leaves \<^verbatim>\<open>PHYSFS_ERR_NOT_FOUND\<close> as the thread's error
  code; any other failure of \<^verbatim>\<open>stat\<close> is passed over.
\<close>

lemma verifyPath_loop_symlink:
  assumes "start \<le> n" and "n \<le> length fname"
    and "n = length fname \<or> fname ! n = CHR ''/''"
    and "\<forall>e. \<exists>e'. stat' (take n fname) e = (True, PHYSFS_FILETYPE_SYMLINK, e')"
    and "\<forall>m e. start \<le> m \<and> m < n \<and> fname ! m = CHR ''/'' \<longrightarrow>
           (case stat' (take m fname) e of
              (rc, ft, e') \<Rightarrow> rc \<or> currentErrorCode e' \<noteq> PHYSFS_ERR_NOT_FOUND)"
  shows "\<exists>e. verifyPath_loop plat stat' allowMissing fname start err
           = (False, PHYSFS_setErrorCode plat PHYSFS_ERR_SYMLINK_FORBIDDEN e)"
  using assms
proof (induction "n - start" arbitrary: start err rule: less_induct)
  case less
  from less.prems(4) obtain e1 where
    link: "stat' (take n fname) err = (True, PHYSFS_FILETYPE_SYMLINK, e1)" by blast
  show ?case
  proof (cases "strchr_slash (drop start fname)")
    case None
    have "n = length fname"
    proof (rule ccontr)
      assume "n \<noteq> length fname"
      with less.prems(2,3) have "n < length fname" "fname ! n = CHR ''/''" by auto
      with strchr_slash_drop_None [OF None less.prems(1)] show False by blast
    qed
    with None link show ?thesis
      by (subst verifyPath_loop.simps) auto
  next
    case (Some k)
    note k = strchr_slash_drop_Some [OF Some]
    have le: "start + k \<le> n"
    proof (rule ccontr)
      assume "\<not> start + k \<le> n"
      then have "n < start + k" by simp
      with k(1) less.prems(3) have "fname ! n = CHR ''/''" by auto
      with k(3) [OF less.prems(1) \<open>n < start + k\<close>] show False by blast
    qed
    show ?thesis
    proof (cases "start + k = n")
      case True
      with Some link show ?thesis
        by (subst verifyPath_loop.simps) auto
    next
      case False
      with le have lt: "start + k < n" by simp
      obtain rc0 ft e2 where
        st: "stat' (take (start + k) fname) err = (rc0, ft, e2)"
        by (cases "stat' (take (start + k) fname) err") auto
      from less.prems(5) lt k(2) have
        "case stat' (take (start + k) fname) err of
           (rc, ft, e') \<Rightarrow> rc \<or> currentErrorCode e' \<noteq> PHYSFS_ERR_NOT_FOUND"
        by simp
      with st have go: "rc0 \<or> currentErrorCode e2 \<noteq> PHYSFS_ERR_NOT_FOUND" by simp
      show ?thesis
      proof (cases "rc0 \<and> ft = PHYSFS_FILETYPE_SYMLINK")
        case True
        with Some st show ?thesis
          by (subst verifyPath_loop.simps) auto
      next
        case nl: False
        have "\<exists>e. verifyPath_loop plat stat' allowMissing fname (start + k + 1) e2
                = (False, PHYSFS_setErrorCode plat PHYSFS_ERR_SYMLINK_FORBIDDEN e)"
        proof (rule less.hyps)
          show "n - (start + k + 1) < n - start" using lt by simp
          show "start + k + 1 \<le> n" using lt by simp
          show "\<forall>m e. start + k + 1 \<le> m \<and> m < n \<and> fname ! m = CHR ''/'' \<longrightarrow>
             (case stat' (take m fname) e of
                (rc, ft, e') \<Rightarrow> rc \<or> currentErrorCode e' \<noteq> PHYSFS_ERR_NOT_FOUND)"
            using less.prems(5) by simp
        qed (use less.prems in simp_all)
        with Some st nl go show ?thesis
          by (subst verifyPath_loop.simps) auto
      qed
    qed
  qed
qed

text \<open>
  C7 says that a link in the final segment is let through. It is not: the loop stats the
  whole path before it looks whether a separator follows.
\<close>

theorem verifyPath_final_symlink_counterexample:
  "verifyPath demo_platform False demo_link_handle ''link'' False None
     = (False, ''link'', Some PHYSFS_ERR_SYMLINK_FORBIDDEN)"
  by (simp add: verifyPath_def verifyPath_mountPoint_def verifyPath_loop.simps
      demo_link_stat_def)

text \<open>
  C7, as amended: when symbolic links are disallowed, \<^verbatim>\<open>verifyPath\<close> stats each segment of the
  mountpoint-relative path in turn and fails with \<^verbatim>\<open>PHYSFS_ERR_SYMLINK_FORBIDDEN\<close> if any
  segment it stats, the final one included, stats as a symbolic link. Here \<open>fname\<close> is the
  path relative to the mount point and \<open>n\<close> is where the segment (the prefix handed to
  \<^verbatim>\<open>stat\<close>) ends. The loop reaches that segment unless the \<^verbatim>\<open>stat\<close> of an earlier one has failed
  with \<^verbatim>\<open>PHYSFS_ERR_NOT_FOUND\<close> as the thread's error code, which is the one way it stops
  short of a link; an earlier segment that is itself a link ends the call with the same
  result. Failing with \<^verbatim>\<open>PHYSFS_ERR_SYMLINK_FORBIDDEN\<close> is the call
  \<^verbatim>\<open>PHYSFS_setErrorCode(PHYSFS_ERR_SYMLINK_FORBIDDEN)\<close> on the error state the last \<^verbatim>\<open>stat\<close>
  left: the code is the thread's error code afterwards whenever the allocator has room for
  an \<^verbatim>\<open>ErrState\<close>.
\<close>

theorem verifyPath_rejects_symlink_segment:
  assumes "fname0 \<noteq> []"
    and "verifyPath_mountPoint h fname0 = Inr fname"
    and "n \<le> length fname"
    and "n = length fname \<or> fname ! n = CHR ''/''"
    and "\<forall>e. \<exists>e'. stat (funcs h) (opaque h) (take n fname) e = (True, PHYSFS_FILETYPE_SYMLINK, e')"
    and "\<forall>m e. m < n \<and> fname ! m = CHR ''/'' \<longrightarrow>
           (case stat (funcs h) (opaque h) (take m fname) e of
              (rc, ft, e') \<Rightarrow> rc \<or> currentErrorCode e' \<noteq> PHYSFS_ERR_NOT_FOUND)"
  shows "(\<exists>e. verifyPath plat False h fname0 allowMissing err
               = (False, fname, PHYSFS_setErrorCode plat PHYSFS_ERR_SYMLINK_FORBIDDEN e))
       \<and> (Malloc plat sizeof_ErrState
            \<longrightarrow> verifyPath plat False h fname0 allowMissing err
                  = (False, fname, Some PHYSFS_ERR_SYMLINK_FORBIDDEN))"
proof -
  have "\<exists>e. verifyPath_loop plat (stat (funcs h) (opaque h)) allowMissing fname 0 err
                = (False, PHYSFS_setErrorCode plat PHYSFS_ERR_SYMLINK_FORBIDDEN e)"
    using assms(3-6) by (intro verifyPath_loop_symlink [where n = n]) auto
  then obtain e where
    loop: "verifyPath_loop plat (stat (funcs h) (opaque h)) allowMissing fname 0 err
             = (False, PHYSFS_setErrorCode plat PHYSFS_ERR_SYMLINK_FORBIDDEN e)"
    by blast
  from assms(1,2) have v: "verifyPath plat False h fname0 allowMissing err
               = (False, fname, PHYSFS_setErrorCode plat PHYSFS_ERR_SYMLINK_FORBIDDEN e)"
    by (simp add: verifyPath_def loop)
  show ?thesis
  proof (intro conjI impI)
    from v show "\<exists>e. verifyPath plat False h fname0 allowMissing err
               = (False, fname, PHYSFS_setErrorCode plat PHYSFS_ERR_SYMLINK_FORBIDDEN e)"
      by blast
  next
    assume "Malloc plat sizeof_ErrState"
    with v show "verifyPath plat False h fname0 allowMissing err
                  = (False, fname, Some PHYSFS_ERR_SYMLINK_FORBIDDEN)"
      by simp
  qed
qed

text \<open>
  In the example archive the path \<^verbatim>\<open>dir/link/file\<close> has its link in the middle, behind a
  directory; the path \<^verbatim>\<open>locked/link\<close> has it at the end, behind a segment whose \<^verbatim>\<open>stat\<close> fails
  for want of permission.
\<close>

theorem verifyPath_rejects_symlink_segment_witness:
  "verifyPath_mountPoint demo_link_handle ''dir/link/file'' = Inr ''dir/link/file''
   \<and> take 8 ''dir/link/file'' = ''dir/link''
   \<and> verifyPath demo_platform False demo_link_handle ''dir/link/file'' False None
     = (False, ''dir/link/file'', Some PHYSFS_ERR_SYMLINK_FORBIDDEN)
   \<and> demo_link_stat () ''locked'' None = (False, PHYSFS_FILETYPE_OTHER, Some PHYSFS_ERR_PERMISSION)
   \<and> verifyPath demo_platform False demo_link_handle ''locked/link'' False None
     = (False, ''locked/link'', Some PHYSFS_ERR_SYMLINK_FORBIDDEN)"
proof -
  have vm: "verifyPath_mountPoint demo_link_handle ''dir/link/file'' = Inr ''dir/link/file''"
    "verifyPath_mountPoint demo_link_handle ''locked/link'' = Inr ''locked/link''"
    by (simp_all add: verifyPath_mountPoint_def)
  have t: "take 8 ''dir/link/file'' = ''dir/link''" by simp
  have lk: "demo_link_stat () ''locked'' None
              = (False, PHYSFS_FILETYPE_OTHER, Some PHYSFS_ERR_PERMISSION)"
    by (simp add: demo_link_stat_def)
  have m1: "\<forall>m. m < 8 \<and> ''dir/link/file'' ! m = CHR ''/'' \<longrightarrow> m = 3"
    by (auto simp: nth_Cons' split: if_splits)
  have m2: "\<forall>m. m < 11 \<and> ''locked/link'' ! m = CHR ''/'' \<longrightarrow> m = 6"
    by (auto simp: nth_Cons' split: if_splits)
  have s1: "\<forall>m e. m < 8 \<and> ''dir/link/file'' ! m = CHR ''/'' \<longrightarrow>
           (case stat (funcs demo_link_handle) (opaque demo_link_handle)
                   (take m ''dir/link/file'') e of
              (rc, ft, e') \<Rightarrow> rc \<or> currentErrorCode e' \<noteq> PHYSFS_ERR_NOT_FOUND)"
  proof (intro allI impI)
    fix m e assume "m < 8 \<and> ''dir/link/file'' ! m = CHR ''/''"
    with m1 have "m = 3" by blast
    then show "case stat (funcs demo_link_handle) (opaque demo_link_handle)
                   (take m ''dir/link/file'') e of
              (rc, ft, e') \<Rightarrow> rc \<or> currentErrorCode e' \<noteq> PHYSFS_ERR_NOT_FOUND"
      by (simp add: demo_link_stat_def)
  qed
  have s2: "\<forall>m e. m < 11 \<and> ''locked/link'' ! m = CHR ''/'' \<longrightarrow>
           (case stat (funcs demo_link_handle) (opaque demo_link_handle)
                   (take m ''locked/link'') e of
              (rc, ft, e') \<Rightarrow> rc \<or> currentErrorCode e' \<noteq> PHYSFS_ERR_NOT_FOUND)"
  proof (intro allI impI)
    fix m e assume "m < 11 \<and> ''locked/link'' ! m = CHR ''/''"
    with m2 have "m = 6" by blast
    then show "case stat (funcs demo_link_handle) (opaque demo_link_handle)
                   (take m ''locked/link'') e of
              (rc, ft, e') \<Rightarrow> rc \<or> currentErrorCode e' \<noteq> PHYSFS_ERR_NOT_FOUND"
      by (simp add: demo_link_stat_def)
  qed
  have a: "verifyPath demo_platform False demo_link_handle ''dir/link/file'' False None
     = (False, ''dir/link/file'', Some PHYSFS_ERR_SYMLINK_FORBIDDEN)"
    by (rule verifyPath_rejects_symlink_segment
          [where n = 8, OF _ vm(1) _ _ _ s1, THEN conjunct2, THEN mp])
       (simp_all add: demo_link_stat_def)
  have b: "verifyPath demo_platform False demo_link_handle ''locked/link'' False None
     = (False, ''locked/link'', Some PHYSFS_ERR_SYMLINK_FORBIDDEN)"
    by (rule verifyPath_rejects_symlink_segment
          [where n = 11, OF _ vm(2) _ _ _ s2, THEN conjunct2, THEN mp])
       (simp_all add: demo_link_stat_def)
  from vm(1) t a lk b show ?thesis by simp
qed

subsection \<open>Claim C9: the list of \<^verbatim>\<open>PHYSFS_enumerateFiles\<close>\<close>

text \<open>The sign of \<^verbatim>\<open>strcmp\<close> is the lexicographic order of the bytes.\<close>

lemma strcmp_eq_0: "strcmp a b = 0 \<longleftrightarrow> a = b"
  by (induction a b rule: strcmp.induct) auto

lemma strcmp_less_0: "strcmp a b < 0 \<longleftrightarrow> a < b"
  by (induction a b rule: strcmp.induct) (auto simp: less_char_def [symmetric])

lemma strcmp_greater_0: "strcmp a b > 0 \<longleftrightarrow> b < a"
  by (induction a b rule: strcmp.induct) (auto simp: less_char_def [symmetric])

lemma locateInStringList_loop_correct:
  assumes "sorted_wrt (<) (take n lst)" and "n \<le> length lst" and "n < 2 ^ 32"
    and "lo + len \<le> n"
    and "\<forall>i<lo. lst ! i < str"
    and "\<forall>i. lo + len \<le> i \<and> i < n \<longrightarrow> str < lst ! i"
  shows "case locateInStringList_loop str lst lo len of
           (True, p) \<Rightarrow> str \<in> set (take n lst)
         | (False, p) \<Rightarrow> p \<le> n \<and> (\<forall>i<p. lst ! i < str) \<and> (\<forall>i. p \<le> i \<and> i < n \<longrightarrow> str < lst ! i)"
  using assms
proof (induction str lst lo len rule: locateInStringList_loop.induct)
  case (1 str lst lo len)
  have mono: "lst ! i < lst ! j" if "i < j" "j < n" for i j
    using "1.prems"(1,2) that by (auto simp: sorted_wrt_iff_nth_less)
  show ?case
  proof (cases "len > 0")
    case False
    with "1.prems" show ?thesis
      by (subst locateInStringList_loop.simps) auto
  next
    case True
    define half_len where "half_len = len div 2"
    define middle where "middle = u32 (lo + half_len)"
    have mid: "middle = lo + half_len" "middle < n"
      using True "1.prems"(3,4) by (auto simp: middle_def half_len_def u32_id)
    have mid1: "u32 (middle + 1) = middle + 1"
      using mid "1.prems"(3) by (intro u32_id) auto
    consider (eq) "strcmp (lst ! middle) str = 0" | (gt) "strcmp (lst ! middle) str > 0"
      | (lt) "strcmp (lst ! middle) str < 0" by linarith
    then show ?thesis
    proof cases
      case eq
      then have "lst ! middle = str" by (simp add: strcmp_eq_0)
      moreover have "lst ! middle \<in> set (take n lst)"
        using mid "1.prems"(2) by (auto simp: in_set_conv_nth intro!: exI [of _ middle])
      ultimately show ?thesis
        using True eq
        by (subst locateInStringList_loop.simps)
          (simp add: Let_def half_len_def [symmetric] middle_def [symmetric])
    next
      case gt
      then have g: "str < lst ! middle" by (simp add: strcmp_greater_0)
      have "\<forall>i. lo + half_len \<le> i \<and> i < n \<longrightarrow> str < lst ! i"
      proof (intro allI impI)
        fix i assume i: "lo + half_len \<le> i \<and> i < n"
        show "str < lst ! i"
        proof (cases "i = middle")
          case True
          with g show ?thesis by simp
        next
          case False
          with i mid have "lst ! middle < lst ! i" by (intro mono) auto
          with g show ?thesis by simp
        qed
      qed
      with "1.IH"(1) [OF True half_len_def middle_def refl _ gt] "1.prems" mid
      have "case locateInStringList_loop str lst lo half_len of
           (True, p) \<Rightarrow> str \<in> set (take n lst)
         | (False, p) \<Rightarrow> p \<le> n \<and> (\<forall>i<p. lst ! i < str) \<and> (\<forall>i. p \<le> i \<and> i < n \<longrightarrow> str < lst ! i)"
        using gt by (auto simp: half_len_def)
      then show ?thesis
        using True gt
        by (subst locateInStringList_loop.simps)
          (simp add: Let_def half_len_def [symmetric] middle_def [symmetric])
    next
      case lt
      then have l: "lst ! middle < str" by (simp add: strcmp_less_0)
      have "\<forall>i<middle + 1. lst ! i < str"
      proof (intro allI impI)
        fix i assume i: "i < middle + 1"
        show "lst ! i < str"
        proof (cases "i = middle")
          case True
          with l show ?thesis by simp
        next
          case False
          with i mid have "lst ! i < lst ! middle" by (intro mono) auto
          with l show ?thesis by simp
        qed
      qed
      moreover have "middle + 1 + (len - (half_len + 1)) = lo + len"
        using True mid by (simp add: half_len_def)
      ultimately
      have "case locateInStringList_loop str lst (u32 (middle + 1)) (len - (half_len + 1)) of
           (True, p) \<Rightarrow> str \<in> set (take n lst)
         | (False, p) \<Rightarrow> p \<le> n \<and> (\<forall>i<p. lst ! i < str) \<and> (\<forall>i. p \<le> i \<and> i < n \<longrightarrow> str < lst ! i)"
        unfolding mid1
        using "1.IH"(2) [OF True half_len_def middle_def refl] lt "1.prems" mid1
        by auto
      then show ?thesis
        using True lt
        by (subst locateInStringList_loop.simps)
          (simp add: Let_def half_len_def [symmetric] middle_def [symmetric])
    qed
  qed
qed

text \<open>
  The callback puts a new name where the search says, which keeps the entries in use in
  strictly ascending order; a name that is there already is left out.
\<close>

lemma sorted_insert_at:
  assumes "sorted_wrt (<) xs" and "p \<le> length xs"
    and "\<forall>i<p. xs ! i < (x::string)" and "\<forall>i. p \<le> i \<and> i < length xs \<longrightarrow> x < xs ! i"
  shows "sorted_wrt (<) (take p xs @ [x] @ drop p xs)"
proof -
  have 1: "sorted_wrt (<) (take p xs)" "sorted_wrt (<) (drop p xs)"
    using assms(1) by (simp_all add: sorted_wrt_take sorted_wrt_drop)
  have 2: "\<forall>a\<in>set (take p xs). a < x"
    using assms(2,3) by (auto simp: in_set_conv_nth)
  have 3: "\<forall>b\<in>set (drop p xs). x < b"
    using assms(2,4) by (auto simp: in_set_conv_nth)
  have 4: "\<forall>a\<in>set (take p xs). \<forall>b\<in>set (drop p xs). a < b"
    using 2 3 by (meson less_trans)
  from 1 2 3 4 show ?thesis
    by (simp add: sorted_wrt_append)
qed

lemma enumFilesCallback_ok:
  assumes "ecd_ok pecd" and "enumFilesCallback plat pecd err origdir str = (r, pecd', err')"
  shows "ecd_ok pecd'"
proof -
  let ?n = "ecd_size pecd" and ?l = "ecd_list pecd"
  from assms(1) have ok: "?n \<le> length ?l" "?n < 2 ^ 32" "sorted_wrt (<) (take ?n ?l)"
    by (auto simp: ecd_ok_def)
  have loc: "case locateInStringList_loop str ?l 0 ?n of
           (True, p) \<Rightarrow> str \<in> set (take ?n ?l)
         | (False, p) \<Rightarrow> p \<le> ?n \<and> (\<forall>i<p. ?l ! i < str) \<and> (\<forall>i. p \<le> i \<and> i < ?n \<longrightarrow> str < ?l ! i)"
    using ok by (intro locateInStringList_loop_correct) auto
  show ?thesis
  proof (cases "locateInStringList_loop str ?l 0 ?n")
    case (Pair found p)
    show ?thesis
    proof (cases found)
      case True
      with Pair assms show ?thesis
        by (simp add: enumFilesCallback_def locateInStringList_def)
    next
      case False
      with Pair loc have p: "p \<le> ?n" "\<forall>i<p. ?l ! i < str" "\<forall>i. p \<le> i \<and> i < ?n \<longrightarrow> str < ?l ! i"
        by auto
      show ?thesis
      proof (cases "\<not> Realloc plat (u32 (?n + 2) * sizeof_ptr) \<or> \<not> Malloc plat (length str + 1)")
        case True
        with Pair False assms have "pecd' = pecd\<lparr>ecd_errcode := PHYSFS_ERR_OUT_OF_MEMORY\<rparr>"
          by (auto simp: enumFilesCallback_def locateInStringList_def Let_def)
        with assms(1) show ?thesis by (simp add: ecd_ok_def)
      next
        case F: False
        with Pair False assms
        have e: "pecd' = pecd\<lparr>ecd_list := take p ?l @ [str] @ drop p ?l, ecd_size := u32 (?n + 1)\<rparr>"
          by (auto simp: enumFilesCallback_def locateInStringList_def Let_def)
        have s: "sorted_wrt (<) (take p (take ?n ?l) @ [str] @ drop p (take ?n ?l))"
          using ok p by (intro sorted_insert_at) auto
        have t: "take (?n + 1) (take p ?l @ [str] @ drop p ?l)
                  = take p (take ?n ?l) @ [str] @ drop p (take ?n ?l)"
          using ok p by (simp add: min_def drop_take Suc_diff_le)
        show ?thesis
        proof (cases "?n + 1 < 2 ^ 32")
          case True
          then have "u32 (?n + 1) = ?n + 1" by (rule u32_id)
          with e s t ok True show ?thesis by (simp add: ecd_ok_def)
        next
          case False
          with ok have "?n + 1 = 2 ^ 32" by simp
          then have "u32 (?n + 1) = 0" by (simp add: u32_def)
          with e show ?thesis by (simp add: ecd_ok_def)
        qed
      qed
    qed
  qed
qed

text \<open>
  Enumeration reaches the data only through the callback, so what every call of the callback
  keeps is kept by \<^verbatim>\<open>PHYSFS_enumerate\<close>.
\<close>

lemma enumerate_callbacks_keeps:
  assumes "cb_keeps P cb" and "P d"
  shows "P (fst (snd (enumerate_callbacks plat cb origdir names d err)))"
  using assms(2)
proof (induction names arbitrary: d err)
  case Nil
  then show ?case by simp
next
  case (Cons name names)
  obtain r d1 e1 where c: "cb d err origdir name = (r, d1, e1)"
    by (cases "cb d err origdir name") auto
  with assms(1) Cons.prems have "P d1"
    unfolding cb_keeps_def by (metis fst_conv snd_conv)
  with Cons.IH [of d1 e1] c show ?case by simp
qed

lemma archiver_enumerate_keeps:
  assumes "cb_keeps P cb" and "P d"
  shows "P (fst (snd (archiver_enumerate plat fns opq dname cb origdir d err)))"
  using assms
  by (auto simp: archiver_enumerate_def intro: enumerate_callbacks_keeps split: prod.splits option.splits)

lemma enumerateFromMountPoint_keeps:
  assumes "cb_keeps P cb" and "P d"
  shows "P (fst (snd (enumerateFromMountPoint plat i arcfname cb fn' d err)))"
proof -
  have "P (fst (snd (cb d e origdir fname)))" for e origdir fname
    using assms unfolding cb_keeps_def by blast
  then have "cb d e origdir fname = (r, d1, e1) \<Longrightarrow> P d1" for e origdir fname r d1 e1
    by (metis fst_conv snd_conv)
  with assms(2) show ?thesis
    by (auto simp: enumerateFromMountPoint_def Let_def split: option.splits prod.splits)
qed

lemma filter_keeps:
  assumes "cb_keeps P cb"
  shows "cb_keeps (\<lambda>x. P (fst x)) (enumCallbackFilterSymLinks plat cb dh arcfname)"
  unfolding cb_keeps_def
proof (intro allI impI)
  fix x :: "'a \<times> PHYSFS_ErrorCode" and e origdir fname
  assume p: "P (fst x)"
  obtain d fe where x: "x = (d, fe)" by (cases x)
  define trimmedDir where
    "trimmedDir = (if arcfname \<noteq> [] \<and> hd arcfname = CHR ''/'' then tl arcfname else arcfname)"
  define path where "path = trimmedDir @ (if trimmedDir \<noteq> [] then ''/'' else []) @ fname"
  obtain rc ft err1 where s: "stat (funcs dh) (opaque dh) path e = (rc, ft, err1)"
    by (cases "stat (funcs dh) (opaque dh) path e") auto
  obtain r d1 err2 where c: "cb d err1 origdir fname = (r, d1, err2)"
    by (cases "cb d err1 origdir fname") auto
  have "P (fst (snd (cb d err1 origdir fname)))"
    using assms p x unfolding cb_keeps_def by simp
  with c have d1: "P d1" by simp
  show "P (fst (fst (snd (enumCallbackFilterSymLinks plat cb dh arcfname x e origdir fname))))"
  proof (cases "PHYSFS_smallAlloc plat (length trimmedDir + length fname + 2)")
    case False
    with p x show ?thesis
      by (simp add: enumCallbackFilterSymLinks_def Let_def trimmedDir_def [symmetric])
  next
    case True
    with p x s c d1 show ?thesis
      by (cases rc; cases "ft = PHYSFS_FILETYPE_SYMLINK")
        (simp_all add: enumCallbackFilterSymLinks_def Let_def trimmedDir_def [symmetric]
          path_def [symmetric])
  qed
qed

lemma enumerate_handle_keeps:
  assumes "cb_keeps P cb" and "P d"
  shows "P (fst (snd (enumerate_handle plat a cb fn' fname i d err)))"
proof (cases "partOfMountPoint i fname")
  case True
  with assms show ?thesis
    by (simp add: enumerate_handle_def enumerateFromMountPoint_keeps)
next
  case False
  obtain rv arcfname err1 where v: "verifyPath plat a i fname False err = (rv, arcfname, err1)"
    by (cases "verifyPath plat a i fname False err") auto
  obtain rc ft err2 where s: "stat (funcs i) (opaque i) arcfname err1 = (rc, ft, err2)"
    by (cases "stat (funcs i) (opaque i) arcfname err1") auto
  have f: "P (fst (fst (snd (archiver_enumerate plat (funcs i) (opaque i) arcfname
                 (enumCallbackFilterSymLinks plat cb i arcfname) fn' (d, PHYSFS_ERR_OK) err2))))"
    using archiver_enumerate_keeps [OF filter_keeps [OF assms(1)], of "(d, PHYSFS_ERR_OK)"] assms(2)
    by simp
  have g: "P (fst (snd (archiver_enumerate plat (funcs i) (opaque i) arcfname cb fn' d err2)))"
    using assms by (rule archiver_enumerate_keeps)
  from False v s assms(2) f g show ?thesis
    by (cases rv) (auto simp: enumerate_handle_def split: prod.splits)
qed

lemma enumerate_searchPath_keeps:
  assumes "cb_keeps P cb" and "P d"
  shows "P (fst (snd (enumerate_searchPath plat a cb fn' fname sp d err)))"
  using assms(2)
proof (induction sp arbitrary: d err)
  case Nil
  then show ?case by simp
next
  case (Cons i sp)
  obtain r d1 e1 where h: "enumerate_handle plat a cb fn' fname i d err = (r, d1, e1)"
    by (cases "enumerate_handle plat a cb fn' fname i d err") auto
  from enumerate_handle_keeps [OF assms(1) Cons.prems, of plat a fn' fname i err] h
  have "P d1" by simp
  with Cons.IH [of d1 e1] h show ?case by simp
qed

lemma PHYSFS_enumerate_keeps:
  assumes "cb_keeps P cb" and "P d"
  shows "P (fst (snd (PHYSFS_enumerate plat fn0 (Some cb) d st)))"
proof (cases fn0)
  case None
  with assms show ?thesis by (simp add: PHYSFS_enumerate_def)
next
  case (Some fn')
  show ?thesis
  proof (cases "sanitizePlatformIndependentPath fn'")
    case None
    with Some assms show ?thesis by (simp add: PHYSFS_enumerate_def)
  next
    case (Some fname)
    with \<open>fn0 = Some fn'\<close> assms(2)
      enumerate_searchPath_keeps [OF assms, of plat "allowSymLinks st" fn' fname "searchPath st" "errcode st"]
    show ?thesis
      by (auto simp: PHYSFS_enumerate_def split: prod.splits)
  qed
qed

text \<open>
  C9: whenever \<^verbatim>\<open>PHYSFS_enumerateFiles\<close> returns a list, that list (the strings before the
  terminating \<^verbatim>\<open>NULL\<close>) is in strictly ascending \<^verbatim>\<open>strcmp\<close> order, hence sorted and free of
  duplicates. The list is built by \<^verbatim>\<open>enumFilesCallback\<close>, which inserts each name at the place
  the binary search of \<^verbatim>\<open>locateInStringList\<close> gives; the example of the claim, a directory
  with the entries \<^verbatim>\<open>foo\<close>, \<^verbatim>\<open>bar\<close>, \<^verbatim>\<open>baz\<close>, gives \<^verbatim>\<open>bar\<close>, \<^verbatim>\<open>baz\<close>, \<^verbatim>\<open>foo\<close>.
\<close>

theorem enumerateFiles_sorted:
  assumes "PHYSFS_enumerateFiles plat path st = (Some names, st')"
  shows "sorted_wrt (\<lambda>a b. strcmp a b < 0) names \<and> distinct names"
proof -
  let ?ecd0 = "\<lparr>ecd_list = [], ecd_size = 0, ecd_errcode = PHYSFS_ERR_OK\<rparr>"
  have k: "cb_keeps ecd_ok (enumFilesCallback plat)"
    unfolding cb_keeps_def
  proof (intro allI impI)
    fix d e origdir fname
    assume "ecd_ok d"
    moreover obtain r p e' where "enumFilesCallback plat d e origdir fname = (r, p, e')"
      by (cases "enumFilesCallback plat d e origdir fname") auto
    ultimately show "ecd_ok (fst (snd (enumFilesCallback plat d e origdir fname)))"
      using enumFilesCallback_ok by fastforce
  qed
  have "ecd_ok ?ecd0" by (simp add: ecd_ok_def)
  from PHYSFS_enumerate_keeps [OF k this]
  have ok: "ecd_ok (fst (snd (PHYSFS_enumerate plat path (Some (enumFilesCallback plat)) ?ecd0 st)))" .
  from assms obtain ecd where
    "names = take (ecd_size ecd) (ecd_list ecd)"
    "ecd = fst (snd (PHYSFS_enumerate plat path (Some (enumFilesCallback plat)) ?ecd0 st))"
    by (auto simp: PHYSFS_enumerateFiles_def split: if_splits prod.splits bool.splits)
  with ok have s: "sorted_wrt (<) names" by (simp add: ecd_ok_def)
  then have "distinct names" by (simp add: strict_sorted_iff)
  with s show ?thesis by (simp add: strcmp_less_0)
qed

theorem enumerateFiles_sorted_witness:
  "platformEnumerate_entries demo_platform ''/data/'' None
     = (Some [''foo'', ''bar'', ''baz''], None)
   \<and> PHYSFS_enumerateFiles demo_platform (Some ''/'') demo_mounted
     = (Some [''bar'', ''baz'', ''foo''], demo_mounted)
   \<and> sorted_wrt (\<lambda>a b. strcmp a b < 0) [''bar'', ''baz'', ''foo'']
   \<and> distinct [''bar'', ''baz'', ''foo'']"
  using enumerateFiles_sorted [OF demo_enumerateFiles_eval] demo_enumerateFiles_eval
  by simp

end
